theory Spec2Isabelle
  imports Main "HOL-Library.Word"
begin

unbundle bit_operations_syntax

section \<open>Bytes, errors and the library primitives used by generate_icons.py\<close>

text \<open>
  Python \<open>bytes\<close> objects are lists of 8-bit words, Python integers are \<open>int\<close>.
  Every exception the script can raise is a constructor of \<open>error\<close>: \<open>struct.error\<close>
  (a value that does not fit its format code); \<open>ValueError\<close> with its message, which
  tells the two sources apart (\<open>bytes([..])\<close> on an integer outside \<open>range(256)\<close>,
  and a path with a NUL character handed to \<open>os.mkdir\<close> or \<open>open\<close>);
  \<open>TypeError\<close> (\<open>bytes([..])\<close> on an object that is not an integer); and the
  \<open>OSError\<close>s raised by \<open>os.makedirs\<close> and \<open>open\<close>: four subclasses and the
  plain \<open>OSError\<close> with \<open>errno\<close> \<open>ENAMETOOLONG\<close>.
\<close>

type_synonym byte = "8 word"
type_synonym bytes = "byte list"

datatype error =
    StructError
  | ValueError string
  | TypeError
  | FileNotFoundError
  | FileExistsError
  | NotADirectoryError
  | IsADirectoryError
  | OSError_ENAMETOOLONG

text \<open>The exceptions that \<open>except OSError\<close> catches.\<close>

definition os_error :: "error \<Rightarrow> bool" where
  "os_error e =
     (case e of
        StructError \<Rightarrow> False
      | ValueError message \<Rightarrow> False
      | TypeError \<Rightarrow> False
      | _ \<Rightarrow> True)"

subsection \<open>struct.pack\<close>

text \<open>The four bytes of \<open>n\<close>, most significant first (format \<open>>I\<close>).\<close>

definition be32 :: "int \<Rightarrow> bytes" where
  "be32 n = [word_of_int (n div 16777216), word_of_int (n div 65536),
             word_of_int (n div 256), word_of_int n]"

text \<open>\<open>struct.pack('>I', n)\<close>: raises \<open>struct.error\<close> unless \<open>0 <= n <= 4294967295\<close>.\<close>

definition struct_pack_I :: "int \<Rightarrow> error + bytes" where
  "struct_pack_I n =
     (if 0 \<le> n \<and> n \<le> 4294967295 then Inr (be32 n) else Inl StructError)"

text \<open>
  \<open>struct.pack('>IIBBBBB', a, b, c, d, e, f, g)\<close>: two unsigned 32-bit fields and five
  unsigned 8-bit fields, no padding; \<open>struct.error\<close> when a value is out of range.
\<close>

definition struct_pack_IIBBBBB ::
  "int \<Rightarrow> int \<Rightarrow> int \<Rightarrow> int \<Rightarrow> int \<Rightarrow> int \<Rightarrow> int \<Rightarrow> error + bytes" where
  "struct_pack_IIBBBBB a b c d e f g =
     (if list_all (\<lambda>x. 0 \<le> x \<and> x \<le> 4294967295) [a, b] \<and>
         list_all (\<lambda>x. 0 \<le> x \<and> x \<le> 255) [c, d, e, f, g]
      then Inr (be32 a @ be32 b @ map word_of_int [c, d, e, f, g])
      else Inl StructError)"

subsection \<open>bytes([..])\<close>

text \<open>\<open>bytes(xs)\<close> for a list of integers: \<open>ValueError\<close> unless all are in \<open>range(256)\<close>.\<close>

definition bytes_of_ints :: "int list \<Rightarrow> error + bytes" where
  "bytes_of_ints xs =
     (if list_all (\<lambda>x. 0 \<le> x \<and> x \<le> 255) xs then Inr (map word_of_int xs)
      else Inl (ValueError ''bytes must be in range(0, 256)''))"

subsection \<open>zlib.crc32\<close>

text \<open>
  The CRC-32 of zlib (ISO 3309, ITU-T V.42): reflected polynomial \<open>0xEDB88320\<close>, register
  preset to \<open>0xFFFFFFFF\<close>, one shift per input bit with the least significant bit first,
  and the register complemented at the end. The result is read as an unsigned integer, as
  Python 3 returns it.
\<close>

definition crc_shift :: "32 word \<Rightarrow> 32 word" where
  "crc_shift c = (if bit c 0 then drop_bit 1 c XOR 0xEDB88320 else drop_bit 1 c)"

definition crc_update :: "32 word \<Rightarrow> byte \<Rightarrow> 32 word" where
  "crc_update c b = (crc_shift ^^ 8) (c XOR ucast b)"

definition zlib_crc32 :: "bytes \<Rightarrow> int" where
  "zlib_crc32 data = uint (foldl crc_update 0xFFFFFFFF data XOR 0xFFFFFFFF)"

section \<open>create_png: the encoder\<close>

subsection \<open>png_chunk (lines 17-20)\<close>

definition png_chunk :: "bytes \<Rightarrow> bytes \<Rightarrow> error + bytes" where
  "png_chunk chunk_type data =
     (case struct_pack_I (int (length data)) of
        Inl e \<Rightarrow> Inl e
      | Inr chunk_len \<Rightarrow>
          (case struct_pack_I (zlib_crc32 (chunk_type @ data) AND 0xffffffff) of
             Inl e \<Rightarrow> Inl e
           | Inr chunk_crc \<Rightarrow> Inr (chunk_len @ chunk_type @ data @ chunk_crc)))"

subsection \<open>The constants of the format\<close>

definition signature :: bytes where
  "signature = [0x89, 0x50, 0x4E, 0x47, 0x0D, 0x0A, 0x1A, 0x0A]"

definition IHDR :: bytes where
  "IHDR = [0x49, 0x48, 0x44, 0x52]"

definition IDAT :: bytes where
  "IDAT = [0x49, 0x44, 0x41, 0x54]"

definition IEND :: bytes where
  "IEND = [0x49, 0x45, 0x4E, 0x44]"

subsection \<open>The scanline loops (lines 30-34)\<close>

text \<open>
  The inner loop \<open>for x in range(width): raw_data += bytes([r, g, b])\<close> and the outer
  loop \<open>for y in range(height): raw_data += b'\x00'; ...\<close>, each with the buffer as an
  accumulator. \<open>range(n)\<close> is empty for \<open>n \<le> 0\<close>, so the loops run \<open>nat n\<close> times.
\<close>

fun pixel_loop :: "nat \<Rightarrow> int \<times> int \<times> int \<Rightarrow> bytes \<Rightarrow> error + bytes" where
  "pixel_loop 0 rgb raw_data = Inr raw_data"
| "pixel_loop (Suc n) (r, g, b) raw_data =
     (case bytes_of_ints [r, g, b] of
        Inl e \<Rightarrow> Inl e
      | Inr px \<Rightarrow> pixel_loop n (r, g, b) (raw_data @ px))"

fun row_loop :: "nat \<Rightarrow> nat \<Rightarrow> int \<times> int \<times> int \<Rightarrow> bytes \<Rightarrow> error + bytes" where
  "row_loop 0 w rgb raw_data = Inr raw_data"
| "row_loop (Suc n) w rgb raw_data =
     (case pixel_loop w rgb (raw_data @ [0x00]) of
        Inl e \<Rightarrow> Inl e
      | Inr raw_data' \<Rightarrow> row_loop n w rgb raw_data')"

definition scanlines :: "int \<Rightarrow> int \<Rightarrow> int \<times> int \<times> int \<Rightarrow> error + bytes" where
  "scanlines width height rgb = row_loop (nat height) (nat width) rgb []"

subsection \<open>The byte stream (lines 22-40 and the concatenation of line 46)\<close>

text \<open>
  \<open>zlib.compress\<close> is a parameter of the model: the script only relies on it being a
  function from bytes to bytes. The order of evaluation is the source's: the header is
  packed before the scanlines are built, the scanlines before they are compressed.
\<close>

definition png_bytes ::
  "(bytes \<Rightarrow> bytes) \<Rightarrow> int \<Rightarrow> int \<Rightarrow> int \<times> int \<times> int \<Rightarrow> error + bytes" where
  "png_bytes zlib_compress width height rgb_color =
     (case struct_pack_IIBBBBB width height 8 2 0 0 0 of
        Inl e \<Rightarrow> Inl e
      | Inr ihdr_data \<Rightarrow>
     (case png_chunk IHDR ihdr_data of
        Inl e \<Rightarrow> Inl e
      | Inr ihdr \<Rightarrow>
     (case scanlines width height rgb_color of
        Inl e \<Rightarrow> Inl e
      | Inr raw_data \<Rightarrow>
     (case png_chunk IDAT (zlib_compress raw_data) of
        Inl e \<Rightarrow> Inl e
      | Inr idat \<Rightarrow>
     (case png_chunk IEND [] of
        Inl e \<Rightarrow> Inl e
      | Inr iend \<Rightarrow> Inr (signature @ ihdr @ idat @ iend))))))"

section \<open>Paths and the file system\<close>

subsection \<open>posixpath: split, dirname, join, normpath, abspath\<close>

text \<open>
  Paths are Python strings. The functions below follow \<open>posixpath.py\<close>:
  \<open>split\<close> cuts after the last slash and strips the trailing slashes of a head that is
  not all slashes; \<open>dirname\<close> is the head of \<open>split\<close>; \<open>join\<close> restarts at an
  absolute second argument; \<open>normpath\<close> drops empty and \<open>.\<close> components and resolves
  \<open>..\<close> textually, keeping one or exactly two leading slashes.
\<close>

definition rstrip_slashes :: "string \<Rightarrow> string" where
  "rstrip_slashes s = rev (dropWhile (\<lambda>c. c = CHR ''/'') (rev s))"

definition os_path_split :: "string \<Rightarrow> string \<times> string" where
  "os_path_split p =
     (let tail = rev (takeWhile (\<lambda>c. c \<noteq> CHR ''/'') (rev p));
          head = take (length p - length tail) p
      in (if head \<noteq> [] \<and> \<not> list_all (\<lambda>c. c = CHR ''/'') head
          then rstrip_slashes head else head,
          tail))"

definition os_path_dirname :: "string \<Rightarrow> string" where
  "os_path_dirname p = fst (os_path_split p)"

definition os_path_isabs :: "string \<Rightarrow> bool" where
  "os_path_isabs s = (take 1 s = ''/'')"

definition os_path_join :: "string \<Rightarrow> string \<Rightarrow> string" where
  "os_path_join a b =
     (if os_path_isabs b then b
      else if a = [] then a @ b
      else if last a = CHR ''/'' then a @ b
      else a @ ''/'' @ b)"

text \<open>\<open>s.split('/')\<close> and \<open>'/'.join(comps)\<close>.\<close>

fun split_slash :: "string \<Rightarrow> string list" where
  "split_slash [] = [[]]"
| "split_slash (c # cs) =
     (if c = CHR ''/'' then [] # split_slash cs
      else (case split_slash cs of
              [] \<Rightarrow> [[c]]
            | x # xs \<Rightarrow> (c # x) # xs))"

fun join_slash :: "string list \<Rightarrow> string" where
  "join_slash [] = []"
| "join_slash [x] = x"
| "join_slash (x # y # ys) = x @ ''/'' @ join_slash (y # ys)"

definition normpath_comp :: "bool \<Rightarrow> string list \<Rightarrow> string \<Rightarrow> string list" where
  "normpath_comp rooted new_comps c =
     (if c = [] \<or> c = ''.'' then new_comps
      else if c = ''..'' then
        (if \<not> rooted \<and> new_comps = [] then new_comps @ [c]
         else if new_comps \<noteq> [] \<and> last new_comps = ''..'' then new_comps @ [c]
         else if new_comps \<noteq> [] then butlast new_comps
         else new_comps)
      else new_comps @ [c])"

definition os_path_normpath :: "string \<Rightarrow> string" where
  "os_path_normpath path =
     (if path = [] then ''.''
      else
        let initial_slashes =
              (if os_path_isabs path
               then (if take 2 path = ''//'' \<and> take 3 path \<noteq> ''///'' then 2 else 1)
               else (0::nat));
            comps = foldl (normpath_comp (0 < initial_slashes)) [] (split_slash path);
            p = replicate initial_slashes CHR ''/'' @ join_slash comps
        in if p = [] then ''.'' else p)"

subsection \<open>The file system\<close>

text \<open>
  A file system is a working directory and a partial map from canonical absolute paths
  (the list of names from the root, \<open>[]\<close> being the root) to nodes: a directory or a
  regular file with its contents. Symbolic links, permissions and the space left are not
  part of the state, so the only \<open>OSError\<close>s are the five of \<open>error\<close>. A path is
  the list of the bytes the system call receives.

  \<open>walk\<close> resolves the components of a path one by one from a starting directory, as
  the kernel does: the directory a component is looked up in must exist and be a
  directory; empty and \<open>.\<close> components stay, \<open>..\<close> goes to the parent (the root is
  its own parent); a name of more than 255 bytes (\<open>NAME_MAX\<close> of Linux) is
  \<open>ENAMETOOLONG\<close>. The location reached need not exist.
\<close>

datatype node = Dir | File bytes

record filesystem =
  cwd :: "string list"
  nodes :: "string list \<rightharpoonup> node"

fun walk :: "(string list \<rightharpoonup> node) \<Rightarrow> string list \<Rightarrow> string list \<Rightarrow> error + string list" where
  "walk ns cur [] = Inr cur"
| "walk ns cur (c # cs) =
     (case ns cur of
        None \<Rightarrow> Inl FileNotFoundError
      | Some (File content) \<Rightarrow> Inl NotADirectoryError
      | Some Dir \<Rightarrow>
          (if c = [] \<or> c = ''.'' then walk ns cur cs
           else if c = ''..'' then walk ns (butlast cur) cs
           else if 255 < length c then Inl OSError_ENAMETOOLONG
           else walk ns (cur @ [c]) cs))"

text \<open>
  What is wrong with a path before any component is looked up: Python refuses a path with
  a NUL character (\<open>ValueError: embedded null byte\<close>) before it calls the system; the
  empty path names nothing (\<open>ENOENT\<close>); a path of more than 4095 bytes
  (\<open>PATH_MAX\<close> of Linux, less the terminator) is \<open>ENAMETOOLONG\<close>.
\<close>

definition path_error :: "string \<Rightarrow> error option" where
  "path_error path =
     (if CHR 0x00 \<in> set path then Some (ValueError ''embedded null byte'')
      else if path = [] then Some FileNotFoundError
      else if 4095 < length path then Some OSError_ENAMETOOLONG
      else None)"

text \<open>A relative path starts at \<open>cwd\<close>.\<close>

definition resolve :: "filesystem \<Rightarrow> string \<Rightarrow> error + string list" where
  "resolve fs path =
     (case path_error path of
        Some e \<Rightarrow> Inl e
      | None \<Rightarrow>
          walk (nodes fs) (if os_path_isabs path then [] else cwd fs) (split_slash path))"

text \<open>A path with its trailing slashes removed, unless it consists of slashes only.\<close>

definition strip_trailing :: "string \<Rightarrow> string" where
  "strip_trailing path =
     (if list_all (\<lambda>c. c = CHR ''/'') path then path else rstrip_slashes path)"

definition os_getcwd :: "filesystem \<Rightarrow> string" where
  "os_getcwd fs = ''/'' @ join_slash (cwd fs)"

definition os_path_abspath :: "filesystem \<Rightarrow> string \<Rightarrow> string" where
  "os_path_abspath fs path =
     os_path_normpath (if os_path_isabs path then path else os_path_join (os_getcwd fs) path)"

text \<open>
  \<open>os.path.exists\<close> and \<open>os.path.isdir\<close> answer \<open>False\<close> when \<open>os.stat\<close> raises
  \<open>OSError\<close> or \<open>ValueError\<close>.
\<close>

definition os_path_exists :: "filesystem \<Rightarrow> string \<Rightarrow> bool" where
  "os_path_exists fs path =
     (case resolve fs path of
        Inl e \<Rightarrow> False
      | Inr q \<Rightarrow> (case nodes fs q of None \<Rightarrow> False | Some n \<Rightarrow> True))"

definition os_path_isdir :: "filesystem \<Rightarrow> string \<Rightarrow> bool" where
  "os_path_isdir fs path =
     (case resolve fs path of
        Inl e \<Rightarrow> False
      | Inr q \<Rightarrow> (case nodes fs q of Some Dir \<Rightarrow> True | _ \<Rightarrow> False))"

text \<open>
  \<open>os.mkdir(path)\<close>: the path as given must pass \<open>path_error\<close>, the parent must
  resolve to a directory and the name must be free. Trailing slashes are ignored, as on
  Linux.
\<close>

definition os_mkdir :: "string \<Rightarrow> filesystem \<Rightarrow> (error + unit) \<times> filesystem" where
  "os_mkdir path fs =
     (case path_error path of
        Some e \<Rightarrow> (Inl e, fs)
      | None \<Rightarrow>
     (case resolve fs (strip_trailing path) of
        Inl e \<Rightarrow> (Inl e, fs)
      | Inr q \<Rightarrow>
          (case nodes fs q of
             Some n \<Rightarrow> (Inl FileExistsError, fs)
           | None \<Rightarrow> (Inr (), fs\<lparr>nodes := (nodes fs)(q \<mapsto> Dir)\<rparr>))))"

text \<open>
  \<open>with open(path, 'wb') as f: f.write(data)\<close>: the path as given must pass
  \<open>path_error\<close>; the file is created or truncated and holds \<open>data\<close> afterwards.
  Opening a directory is \<open>IsADirectoryError\<close>; so is creating a file under a name with
  a trailing slash, and a regular file named with a trailing slash is
  \<open>NotADirectoryError\<close>.
\<close>

definition write_file :: "string \<Rightarrow> bytes \<Rightarrow> filesystem \<Rightarrow> (error + unit) \<times> filesystem" where
  "write_file path data fs =
     (case path_error path of
        Some e \<Rightarrow> (Inl e, fs)
      | None \<Rightarrow>
     (case resolve fs (strip_trailing path) of
        Inl e \<Rightarrow> (Inl e, fs)
      | Inr q \<Rightarrow>
          (case nodes fs q of
             Some Dir \<Rightarrow> (Inl IsADirectoryError, fs)
           | Some (File old) \<Rightarrow>
               (if strip_trailing path = path
                then (Inr (), fs\<lparr>nodes := (nodes fs)(q \<mapsto> File data)\<rparr>)
                else (Inl NotADirectoryError, fs))
           | None \<Rightarrow>
               (if strip_trailing path = path
                then (Inr (), fs\<lparr>nodes := (nodes fs)(q \<mapsto> File data)\<rparr>)
                else (Inl IsADirectoryError, fs)))))"

text \<open>Reading a file back (used to state what was written).\<close>

definition read_file :: "filesystem \<Rightarrow> string \<Rightarrow> bytes option" where
  "read_file fs path =
     (case resolve fs path of
        Inl e \<Rightarrow> None
      | Inr q \<Rightarrow> (case nodes fs q of Some (File content) \<Rightarrow> Some content | _ \<Rightarrow> None))"

subsection \<open>os.makedirs(name, exist_ok=True)\<close>

text \<open>
  As in \<open>os.py\<close>: split the name (twice when it ends in a slash); when the head is
  missing, create it first, ignoring \<open>FileExistsError\<close>, and stop there if the tail is
  \<open>.\<close>; then \<open>mkdir(name)\<close>, where an \<open>OSError\<close> is swallowed exactly when the name
  is a directory afterwards. Any other exception, the \<open>ValueError\<close> of a NUL character
  among them, goes through both handlers.
\<close>

definition makedirs_split :: "string \<Rightarrow> string \<times> string" where
  "makedirs_split name =
     (case os_path_split name of
        (head, tail) \<Rightarrow> if tail = [] then os_path_split head else (head, tail))"

definition mkdir_exist_ok :: "string \<Rightarrow> filesystem \<Rightarrow> (error + unit) \<times> filesystem" where
  "mkdir_exist_ok name fs =
     (case os_mkdir name fs of
        (Inl e, fs') \<Rightarrow>
          if os_error e \<and> os_path_isdir fs' name then (Inr (), fs') else (Inl e, fs')
      | (Inr u, fs') \<Rightarrow> (Inr (), fs'))"

text \<open>The head handed to the recursive call is shorter than the name.\<close>

lemma length_rstrip_slashes: "length (rstrip_slashes s) \<le> length s"
  using length_dropWhile_le [of "\<lambda>c. c = CHR ''/''" "rev s"]
  by (simp add: rstrip_slashes_def)

lemma length_split_head:
  "length (fst (os_path_split p)) + length (snd (os_path_split p)) \<le> length p"
proof -
  let ?tail = "rev (takeWhile (\<lambda>c. c \<noteq> CHR ''/'') (rev p))"
  have "length ?tail \<le> length p"
    using length_takeWhile_le [of "\<lambda>c. c \<noteq> CHR ''/''" "rev p"] by simp
  moreover have "length (rstrip_slashes (take (length p - length ?tail) p))
                   \<le> length p - length ?tail"
    using length_rstrip_slashes [of "take (length p - length ?tail) p"] by simp
  ultimately show ?thesis
    by (auto simp: os_path_split_def Let_def)
qed

lemma split_head_shorter:
  assumes "snd (os_path_split p) \<noteq> []"
  shows "length (fst (os_path_split p)) < length p"
proof -
  have "0 < length (snd (os_path_split p))"
    using assms by simp
  then show ?thesis
    using length_split_head [of p] by linarith
qed

lemma makedirs_split_shorter:
  assumes "snd (makedirs_split name) \<noteq> []"
  shows "length (fst (makedirs_split name)) < length name"
proof (cases "snd (os_path_split name) = []")
  case True
  then have eq: "makedirs_split name = os_path_split (fst (os_path_split name))"
    by (cases "os_path_split name") (simp add: makedirs_split_def)
  have "length (fst (os_path_split name)) \<le> length name"
    using length_split_head [of name] by simp
  moreover have "length (fst (makedirs_split name)) < length (fst (os_path_split name))"
    using split_head_shorter [of "fst (os_path_split name)"] assms
    by (simp add: eq)
  ultimately show ?thesis by simp
next
  case False
  then have eq: "makedirs_split name = os_path_split name"
    by (cases "os_path_split name") (simp add: makedirs_split_def)
  show ?thesis
    using split_head_shorter [of name] assms by (simp add: eq)
qed

function os_makedirs :: "string \<Rightarrow> filesystem \<Rightarrow> (error + unit) \<times> filesystem" where
  "os_makedirs name fs =
     (if fst (makedirs_split name) \<noteq> [] \<and> snd (makedirs_split name) \<noteq> [] \<and>
         \<not> os_path_exists fs (fst (makedirs_split name))
      then
        (case os_makedirs (fst (makedirs_split name)) fs of
           (Inl e, fs') \<Rightarrow>
             (if e = FileExistsError
              then (if snd (makedirs_split name) = ''.'' then (Inr (), fs')
                    else mkdir_exist_ok name fs')
              else (Inl e, fs'))
         | (Inr u, fs') \<Rightarrow>
             (if snd (makedirs_split name) = ''.'' then (Inr (), fs')
              else mkdir_exist_ok name fs'))
      else mkdir_exist_ok name fs)"
  by pat_completeness auto
termination os_makedirs
  by (relation "measure (\<lambda>(name, fs). length name)") (auto simp: makedirs_split_shorter)

declare os_makedirs.simps [simp del]

section \<open>create_png and main\<close>

subsection \<open>create_png (lines 13-46)\<close>

text \<open>
  The byte stream is complete before the file system is touched: an error of the encoder
  leaves the state as it was. \<open>os.makedirs\<close> may have created some directories when it
  fails, so the state comes back with the error.
\<close>

definition create_png ::
  "(bytes \<Rightarrow> bytes) \<Rightarrow> int \<Rightarrow> int \<Rightarrow> int \<times> int \<times> int \<Rightarrow> string \<Rightarrow> filesystem
     \<Rightarrow> (error + unit) \<times> filesystem" where
  "create_png zlib_compress width height rgb_color filepath fs =
     (case png_bytes zlib_compress width height rgb_color of
        Inl e \<Rightarrow> (Inl e, fs)
      | Inr stream \<Rightarrow>
          (case os_makedirs (os_path_dirname filepath) fs of
             (Inl e, fs') \<Rightarrow> (Inl e, fs')
           | (Inr u, fs') \<Rightarrow> write_file filepath stream fs'))"

subsection \<open>main (lines 48-74)\<close>

text \<open>
  The world of \<open>main\<close> is the file system and the lines printed so far. The value of
  \<open>__file__\<close> is a parameter. \<open>str\<close> is the decimal notation the f-string uses.
\<close>

record world =
  files :: filesystem
  stdout :: "string list"

definition print :: "string \<Rightarrow> world \<Rightarrow> world" where
  "print line w = w\<lparr>stdout := stdout w @ [line]\<rparr>"

fun str_nat :: "nat \<Rightarrow> string" where
  "str_nat n =
     (if n < 10 then [char_of (48 + n)]
      else str_nat (n div 10) @ [char_of (48 + n mod 10)])"

declare str_nat.simps [simp del]

definition str :: "int \<Rightarrow> string" where
  "str i = (if i < 0 then ''-'' @ str_nat (nat (- i)) else str_nat (nat i))"

definition teal :: "int \<times> int \<times> int" where
  "teal = (0, 150, 136)"

definition icons :: "(int \<times> string) list" where
  "icons =
     [(48, ''android/app/src/main/res/mipmap-mdpi/ic_launcher.png''),
      (72, ''android/app/src/main/res/mipmap-hdpi/ic_launcher.png''),
      (96, ''android/app/src/main/res/mipmap-xhdpi/ic_launcher.png''),
      (144, ''android/app/src/main/res/mipmap-xxhdpi/ic_launcher.png''),
      (192, ''android/app/src/main/res/mipmap-xxxhdpi/ic_launcher.png'')]"

text \<open>
  The loop \<open>for size, relative_path in icons\<close>: an exception of \<open>create_png\<close> ends
  the run, with the files written so far left in place.
\<close>

fun icon_loop ::
  "(bytes \<Rightarrow> bytes) \<Rightarrow> string \<Rightarrow> (int \<times> string) list \<Rightarrow> world \<Rightarrow> (error + unit) \<times> world" where
  "icon_loop zlib_compress project_root [] w = (Inr (), w)"
| "icon_loop zlib_compress project_root ((sz, relative_path) # rest) w =
     (case create_png zlib_compress sz sz teal
             (os_path_join project_root relative_path) (files w) of
        (Inl e, fs') \<Rightarrow> (Inl e, w\<lparr>files := fs'\<rparr>)
      | (Inr u, fs') \<Rightarrow>
          icon_loop zlib_compress project_root rest
            (print (''  Created '' @ relative_path @ '' ('' @ str sz @ ''x'' @ str sz @ '')'')
               (w\<lparr>files := fs'\<rparr>)))"

definition main :: "(bytes \<Rightarrow> bytes) \<Rightarrow> string \<Rightarrow> world \<Rightarrow> (error + unit) \<times> world" where
  "main zlib_compress script_file w =
     (let script_dir = os_path_dirname (os_path_abspath (files w) script_file);
          project_root = os_path_dirname script_dir
      in case icon_loop zlib_compress project_root icons
                (print ''Generating launcher icons...'' w) of
           (Inl e, w') \<Rightarrow> (Inl e, w')
         | (Inr u, w') \<Rightarrow>
             (Inr (),
              print ''For a production app, replace them with proper designed icons.''
                (print (CHR 0x0A # ''Note: These are placeholder icons (solid teal squares).'')
                   (print (CHR 0x0A # ''All icons created successfully!'') w'))))"

section \<open>Reference definitions: what the format and a decoder expect\<close>

subsection \<open>Scanlines and chunks\<close>

definition valid_color :: "int \<times> int \<times> int \<Rightarrow> bool" where
  "valid_color rgb =
     (case rgb of (r, g, b) \<Rightarrow> list_all (\<lambda>x. 0 \<le> x \<and> x \<le> 255) [r, g, b])"

definition pixel :: "int \<times> int \<times> int \<Rightarrow> bytes" where
  "pixel rgb = (case rgb of (r, g, b) \<Rightarrow> [word_of_int r, word_of_int g, word_of_int b])"

text \<open>One row: the filter-type byte 0, then \<open>w\<close> pixels; the buffer is \<open>h\<close> such rows.\<close>

definition scanline :: "nat \<Rightarrow> int \<times> int \<times> int \<Rightarrow> bytes" where
  "scanline w rgb = 0 # concat (replicate w (pixel rgb))"

definition raw_image :: "nat \<Rightarrow> nat \<Rightarrow> int \<times> int \<times> int \<Rightarrow> bytes" where
  "raw_image w h rgb = concat (replicate h (scanline w rgb))"

text \<open>Reading a big-endian unsigned integer.\<close>

definition read_be32 :: "bytes \<Rightarrow> int" where
  "read_be32 bs = foldl (\<lambda>acc b. acc * 256 + uint b) 0 bs"

text \<open>
  The layout of a chunk: payload length, type tag, payload, CRC-32 of tag and payload.
\<close>

definition chunk_layout :: "bytes \<Rightarrow> bytes \<Rightarrow> bytes" where
  "chunk_layout ty payload =
     be32 (int (length payload)) @ ty @ payload @ be32 (zlib_crc32 (ty @ payload))"

text \<open>
  A reader of chunk sequences: it takes the length field, the tag and the payload of each
  chunk, recomputes the CRC-32 over tag and payload and compares it with the stored one.
\<close>

function read_chunks :: "bytes \<Rightarrow> (bytes \<times> bytes) list option" where
  "read_chunks bs =
     (if bs = [] then Some []
      else if length bs < 12 then None
      else
        let n = nat (read_be32 (take 4 bs));
            ty = take 4 (drop 4 bs);
            payload = take n (drop 8 bs);
            crc = read_be32 (take 4 (drop (8 + n) bs))
        in if length bs < 12 + n then None
           else if crc = zlib_crc32 (ty @ payload)
           then (case read_chunks (drop (12 + n) bs) of
                   None \<Rightarrow> None
                 | Some cs \<Rightarrow> Some ((ty, payload) # cs))
           else None)"
  by pat_completeness auto
termination
  by (relation "measure length") auto

declare read_chunks.simps [simp del]

text \<open>The 13 bytes of the header and the whole stream, as the format lays them out.\<close>

definition ihdr_payload :: "int \<Rightarrow> int \<Rightarrow> bytes" where
  "ihdr_payload w h = be32 w @ be32 h @ [8, 2, 0, 0, 0]"

definition png_layout :: "bytes \<Rightarrow> bytes \<Rightarrow> bytes" where
  "png_layout header zdata =
     signature @ chunk_layout IHDR header @ chunk_layout IDAT zdata @ chunk_layout IEND []"

subsection \<open>A decoder for 8-bit truecolour, non-interlaced streams\<close>

record image =
  img_width :: nat
  img_height :: nat
  img_rows :: "(int \<times> int \<times> int \<times> int) list list"

definition solid_image :: "nat \<Rightarrow> nat \<Rightarrow> int \<times> int \<times> int \<Rightarrow> image" where
  "solid_image w h rgb =
     (case rgb of (r, g, b) \<Rightarrow>
        \<lparr>img_width = w, img_height = h, img_rows = replicate h (replicate w (r, g, b, 255))\<rparr>)"

definition paeth :: "int \<Rightarrow> int \<Rightarrow> int \<Rightarrow> int" where
  "paeth a b c =
     (let p = a + b - c; pa = \<bar>p - a\<bar>; pb = \<bar>p - b\<bar>; pc = \<bar>p - c\<bar>
      in if pa \<le> pb \<and> pa \<le> pc then a else if pb \<le> pc then b else c)"

definition recon_byte :: "byte \<Rightarrow> byte \<Rightarrow> byte \<Rightarrow> byte \<Rightarrow> byte \<Rightarrow> byte option" where
  "recon_byte ft x a b c =
     (if ft = 0 then Some x
      else if ft = 1 then Some (x + a)
      else if ft = 2 then Some (x + b)
      else if ft = 3 then Some (x + word_of_int ((uint a + uint b) div 2))
      else if ft = 4 then Some (x + word_of_int (paeth (uint a) (uint b) (uint c)))
      else None)"

fun recon_line :: "byte \<Rightarrow> bytes \<Rightarrow> bytes \<Rightarrow> bytes \<Rightarrow> bytes option" where
  "recon_line ft prior acc [] = Some acc"
| "recon_line ft prior acc (x # xs) =
     (let i = length acc;
          a = (if 3 \<le> i then acc ! (i - 3) else 0);
          b = (if i < length prior then prior ! i else 0);
          c = (if 3 \<le> i \<and> i - 3 < length prior then prior ! (i - 3) else 0)
      in case recon_byte ft x a b c of
           None \<Rightarrow> None
         | Some r \<Rightarrow> recon_line ft prior (acc @ [r]) xs)"

fun recon_rows :: "nat \<Rightarrow> nat \<Rightarrow> bytes \<Rightarrow> bytes \<Rightarrow> bytes list option" where
  "recon_rows 0 stride prior raw = (if raw = [] then Some [] else None)"
| "recon_rows (Suc k) stride prior raw =
     (case raw of
        [] \<Rightarrow> None
      | ft # rest \<Rightarrow>
          if length rest < stride then None
          else (case recon_line ft prior [] (take stride rest) of
                  None \<Rightarrow> None
                | Some row \<Rightarrow>
                    (case recon_rows k stride row (drop stride rest) of
                       None \<Rightarrow> None
                     | Some rows \<Rightarrow> Some (row # rows))))"

fun rgba_pixels :: "bytes \<Rightarrow> (int \<times> int \<times> int \<times> int) list" where
  "rgba_pixels (r # g # b # rest) = (uint r, uint g, uint b, 255) # rgba_pixels rest"
| "rgba_pixels rest = []"

definition ancillary :: "bytes \<times> bytes \<Rightarrow> bool" where
  "ancillary chunk = (case fst chunk of [] \<Rightarrow> False | t # ts \<Rightarrow> bit t 5)"

definition is_idat :: "bytes \<times> bytes \<Rightarrow> bool" where
  "is_idat chunk = (fst chunk = IDAT)"

definition png_decode :: "(bytes \<Rightarrow> bytes option) \<Rightarrow> bytes \<Rightarrow> image option" where
  "png_decode zlib_decompress stream =
     (if take 8 stream = signature then
        (case read_chunks (drop 8 stream) of
           None \<Rightarrow> None
         | Some [] \<Rightarrow> None
         | Some (first # rest) \<Rightarrow>
             (let header = snd first;
                  w = read_be32 (take 4 header);
                  h = read_be32 (take 4 (drop 4 header));
                  middle = dropWhile ancillary (butlast rest);
                  idats = takeWhile is_idat middle
              in if fst first = IHDR \<and> length header = 13 \<and> rest \<noteq> [] \<and>
                    last rest = (IEND, []) \<and>
                    list_all (\<lambda>c. length (snd c) \<le> 2147483647) (first # rest) \<and>
                    drop 8 header = [8, 2, 0, 0, 0] \<and>
                    1 \<le> w \<and> w \<le> 2147483647 \<and> 1 \<le> h \<and> h \<le> 2147483647 \<and>
                    idats \<noteq> [] \<and> list_all ancillary (dropWhile is_idat middle)
                 then
                   (case zlib_decompress (concat (map snd idats)) of
                      None \<Rightarrow> None
                    | Some raw \<Rightarrow>
                        (case recon_rows (nat h) (3 * nat w) (replicate (3 * nat w) 0) raw of
                           None \<Rightarrow> None
                         | Some rows \<Rightarrow>
                             Some \<lparr>img_width = nat w, img_height = nat h,
                                   img_rows = map rgba_pixels rows\<rparr>))
                 else None))
      else None)"

subsection \<open>A zlib stream of stored blocks\<close>

definition adler32 :: "bytes \<Rightarrow> int" where
  "adler32 data =
     (case foldl (\<lambda>(a, b) x. ((a + uint x) mod 65521, (b + (a + uint x) mod 65521) mod 65521))
             (1, 0) data of
        (a, b) \<Rightarrow> b * 65536 + a)"

definition le16 :: "nat \<Rightarrow> bytes" where
  "le16 n = [of_nat n, of_nat (n div 256)]"

function stored_blocks :: "bytes \<Rightarrow> bytes" where
  "stored_blocks data =
     (if length data \<le> 65535
      then [1] @ le16 (length data) @ le16 (65535 - length data) @ data
      else [0] @ le16 65535 @ le16 0 @ take 65535 data @ stored_blocks (drop 65535 data))"
  by pat_completeness auto
termination
  by (relation "measure length") auto

declare stored_blocks.simps [simp del]

definition zlib_store :: "bytes \<Rightarrow> bytes" where
  "zlib_store data = [0x78, 0x01] @ stored_blocks data @ be32 (adler32 data)"

function inflate_stored :: "bytes \<Rightarrow> (bytes \<times> bytes) option" where
  "inflate_stored bs =
     (case bs of
        hdr # l0 # l1 # n0 # n1 # rest \<Rightarrow>
          (let len = unat l0 + 256 * unat l1; nlen = unat n0 + 256 * unat n1
           in if hdr AND 6 = 0 \<and> len + nlen = 65535 \<and> len \<le> length rest
              then (if bit hdr 0 then Some (take len rest, drop len rest)
                    else (case inflate_stored (drop len rest) of
                            None \<Rightarrow> None
                          | Some (data, trailer) \<Rightarrow> Some (take len rest @ data, trailer)))
              else None)
      | _ \<Rightarrow> None)"
  by pat_completeness auto
termination
  by (relation "measure length") auto

declare inflate_stored.simps [simp del]

definition zlib_unstore :: "bytes \<Rightarrow> bytes option" where
  "zlib_unstore z =
     (case z of
        cmf # flg # rest \<Rightarrow>
          (if cmf AND 15 = 8 \<and> (uint cmf * 256 + uint flg) mod 31 = 0 \<and> \<not> bit flg 5
           then (case inflate_stored rest of
                   None \<Rightarrow> None
                 | Some (data, trailer) \<Rightarrow>
                     if length trailer = 4 \<and> read_be32 trailer = adler32 data
                     then Some data else None)
           else None)
      | _ \<Rightarrow> None)"

text \<open>Two concrete inputs for the examples below: a root-only file system and a tiny image.\<close>

definition root_fs :: filesystem where
  "root_fs = \<lparr>cwd = [], nodes = [[] \<mapsto> Dir]\<rparr>"

section \<open>create_png with colour components of any type\<close>

text \<open>
  Python does not type \<open>rgb_color\<close>: a component is an integer (an \<open>int\<close>, or an
  object whose \<open>__index__\<close> gives one), or some other object, such as a \<open>float\<close>, a
  \<open>str\<close> or \<open>None\<close>. \<open>bytes([..])\<close> converts the elements of its list in order and
  raises at the first one it cannot take: \<open>ValueError\<close> for an integer outside
  \<open>range(256)\<close>, \<open>TypeError\<close> for an object that is not an integer.
\<close>

datatype pyobj = PyInt int | PyOther

fun bytes_of_objects :: "pyobj list \<Rightarrow> error + bytes" where
  "bytes_of_objects [] = Inr []"
| "bytes_of_objects (PyInt n # xs) =
     (if 0 \<le> n \<and> n \<le> 255
      then (case bytes_of_objects xs of
              Inl e \<Rightarrow> Inl e
            | Inr bs \<Rightarrow> Inr (word_of_int n # bs))
      else Inl (ValueError ''bytes must be in range(0, 256)''))"
| "bytes_of_objects (PyOther # xs) = Inl TypeError"

text \<open>
  The loops, the byte stream and \<open>create_png\<close> as above (lines 13-46), with the colour
  as Python passes it. On three integers they are the functions above.
\<close>

fun pixel_loop_dyn :: "nat \<Rightarrow> pyobj \<times> pyobj \<times> pyobj \<Rightarrow> bytes \<Rightarrow> error + bytes" where
  "pixel_loop_dyn 0 rgb raw_data = Inr raw_data"
| "pixel_loop_dyn (Suc n) (r, g, b) raw_data =
     (case bytes_of_objects [r, g, b] of
        Inl e \<Rightarrow> Inl e
      | Inr px \<Rightarrow> pixel_loop_dyn n (r, g, b) (raw_data @ px))"

fun row_loop_dyn :: "nat \<Rightarrow> nat \<Rightarrow> pyobj \<times> pyobj \<times> pyobj \<Rightarrow> bytes \<Rightarrow> error + bytes" where
  "row_loop_dyn 0 w rgb raw_data = Inr raw_data"
| "row_loop_dyn (Suc n) w rgb raw_data =
     (case pixel_loop_dyn w rgb (raw_data @ [0x00]) of
        Inl e \<Rightarrow> Inl e
      | Inr raw_data' \<Rightarrow> row_loop_dyn n w rgb raw_data')"

definition scanlines_dyn :: "int \<Rightarrow> int \<Rightarrow> pyobj \<times> pyobj \<times> pyobj \<Rightarrow> error + bytes" where
  "scanlines_dyn width height rgb = row_loop_dyn (nat height) (nat width) rgb []"

definition png_bytes_dyn ::
  "(bytes \<Rightarrow> bytes) \<Rightarrow> int \<Rightarrow> int \<Rightarrow> pyobj \<times> pyobj \<times> pyobj \<Rightarrow> error + bytes" where
  "png_bytes_dyn zlib_compress width height rgb_color =
     (case struct_pack_IIBBBBB width height 8 2 0 0 0 of
        Inl e \<Rightarrow> Inl e
      | Inr ihdr_data \<Rightarrow>
     (case png_chunk IHDR ihdr_data of
        Inl e \<Rightarrow> Inl e
      | Inr ihdr \<Rightarrow>
     (case scanlines_dyn width height rgb_color of
        Inl e \<Rightarrow> Inl e
      | Inr raw_data \<Rightarrow>
     (case png_chunk IDAT (zlib_compress raw_data) of
        Inl e \<Rightarrow> Inl e
      | Inr idat \<Rightarrow>
     (case png_chunk IEND [] of
        Inl e \<Rightarrow> Inl e
      | Inr iend \<Rightarrow> Inr (signature @ ihdr @ idat @ iend))))))"

definition create_png_dyn ::
  "(bytes \<Rightarrow> bytes) \<Rightarrow> int \<Rightarrow> int \<Rightarrow> pyobj \<times> pyobj \<times> pyobj \<Rightarrow> string \<Rightarrow> filesystem
     \<Rightarrow> (error + unit) \<times> filesystem" where
  "create_png_dyn zlib_compress width height rgb_color filepath fs =
     (case png_bytes_dyn zlib_compress width height rgb_color of
        Inl e \<Rightarrow> (Inl e, fs)
      | Inr stream \<Rightarrow>
          (case os_makedirs (os_path_dirname filepath) fs of
             (Inl e, fs') \<Rightarrow> (Inl e, fs')
           | (Inr u, fs') \<Rightarrow> write_file filepath stream fs'))"

text \<open>A colour of three integers in \<open>[0, 255]\<close>.\<close>

fun byte_valued :: "pyobj \<times> pyobj \<times> pyobj \<Rightarrow> bool" where
  "byte_valued (PyInt r, PyInt g, PyInt b) = valid_color (r, g, b)"
| "byte_valued rgb = False"

section \<open>Properties of the encoder\<close>

subsection \<open>The scanline loops\<close>

lemma pixel_loop_ok:
  "valid_color rgb \<Longrightarrow> pixel_loop n rgb acc = Inr (acc @ concat (replicate n (pixel rgb)))"
  by (induction n rgb acc rule: pixel_loop.induct)
     (auto simp: valid_color_def pixel_def bytes_of_ints_def)

lemma pixel_loop_bad:
  "\<not> valid_color rgb \<Longrightarrow> 0 < n \<Longrightarrow>
   pixel_loop n rgb acc = Inl (ValueError ''bytes must be in range(0, 256)'')"
  by (cases n; cases rgb) (auto simp: valid_color_def bytes_of_ints_def)

lemma row_loop_ok:
  "valid_color rgb \<Longrightarrow>
   row_loop n w rgb acc = Inr (acc @ concat (replicate n (scanline w rgb)))"
  by (induction n w rgb acc rule: row_loop.induct)
     (auto simp: pixel_loop_ok scanline_def)

lemma row_loop_bad:
  "\<not> valid_color rgb \<Longrightarrow> 0 < n \<Longrightarrow> 0 < w \<Longrightarrow>
   row_loop n w rgb acc = Inl (ValueError ''bytes must be in range(0, 256)'')"
  by (cases n) (auto simp: pixel_loop_bad)

lemma row_loop_no_pixels: "row_loop n 0 rgb acc = Inr (acc @ replicate n 0)"
  by (induction n arbitrary: acc) (auto simp: replicate_app_Cons_same)

lemma row_loop_not_StructError: "row_loop n w rgb acc \<noteq> Inl StructError"
  by (cases "valid_color rgb"; cases "0 < n"; cases "0 < w")
     (auto simp: row_loop_ok row_loop_bad row_loop_no_pixels)

lemma scanlines_ok:
  "valid_color rgb \<Longrightarrow> scanlines w h rgb = Inr (raw_image (nat w) (nat h) rgb)"
  by (simp add: scanlines_def row_loop_ok raw_image_def)

lemma scanlines_bad:
  "\<not> valid_color rgb \<Longrightarrow> 1 \<le> w \<Longrightarrow> 1 \<le> h \<Longrightarrow>
   scanlines w h rgb = Inl (ValueError ''bytes must be in range(0, 256)'')"
  by (simp add: scanlines_def row_loop_bad)

lemma scanlines_error:
  "scanlines w h rgb = Inl e \<Longrightarrow>
   e = ValueError ''bytes must be in range(0, 256)'' \<and> \<not> valid_color rgb"
  by (cases "valid_color rgb"; cases "0 < nat h"; cases "0 < nat w")
     (auto simp: scanlines_def row_loop_ok row_loop_bad row_loop_no_pixels)

lemma length_pixel: "length (pixel rgb) = 3"
  by (cases rgb) (simp add: pixel_def)

lemma length_scanline: "length (scanline w rgb) = 1 + 3 * w"
  by (simp add: scanline_def length_concat length_pixel sum_list_replicate)

lemma length_raw_image: "length (raw_image w h rgb) = h * (1 + 3 * w)"
  by (simp add: raw_image_def length_concat length_scanline sum_list_replicate)

subsection \<open>Big-endian fields and the CRC\<close>

lemma length_be32: "length (be32 n) = 4"
  by (simp add: be32_def)

lemma uint_byte_of_int: "uint (word_of_int k :: byte) = k mod 256"
  by (simp add: uint_word_of_int take_bit_eq_mod)

lemma read_be32_be32:
  assumes "0 \<le> n" and "n \<le> 4294967295"
  shows "read_be32 (be32 n) = n"
proof -
  have d2: "n div 65536 = n div 256 div 256"
    using zdiv_zmult2_eq [of 256 n 256] by simp
  have d3: "n div 16777216 = n div 65536 div 256"
    using zdiv_zmult2_eq [of 256 n 65536] by simp
  have top: "n div 16777216 mod 256 = n div 16777216"
    using assms by (intro mod_pos_pos_trivial) auto
  have "read_be32 (be32 n) =
          ((n div 16777216 * 256 + n div 65536 mod 256) * 256 + n div 256 mod 256) * 256
          + n mod 256"
    by (simp add: read_be32_def be32_def uint_byte_of_int top)
  also have "n div 16777216 * 256 + n div 65536 mod 256 = n div 65536"
    by (simp add: d3)
  also have "n div 65536 * 256 + n div 256 mod 256 = n div 256"
    by (simp add: d2)
  also have "n div 256 * 256 + n mod 256 = n"
    by simp
  finally show ?thesis .
qed

lemma crc32_range: "0 \<le> zlib_crc32 bs \<and> zlib_crc32 bs \<le> 4294967295"
  using uint_lt2p [where 'a = 32 and x = "foldl crc_update 0xFFFFFFFF bs XOR 0xFFFFFFFF"]
  by (simp add: zlib_crc32_def)

lemma crc32_mask: "zlib_crc32 bs AND 0xffffffff = zlib_crc32 bs"
proof -
  have "(0xffffffff::int) = mask 32"
    by (simp add: mask_eq_exp_minus_1)
  then show ?thesis
    using crc32_range [of bs]
    by (simp only: flip: take_bit_eq_mask) (simp add: take_bit_int_eq_self_iff)
qed

text \<open>
  The final XOR is the complement of the register; the check value of the CRC-32
  (the digits 1 to 9) comes out as \<open>0xCBF43926\<close>.
\<close>

lemma zlib_crc32_complement: "zlib_crc32 bs = uint (NOT (foldl crc_update 0xFFFFFFFF bs))"
proof -
  have "(0xFFFFFFFF :: 32 word) = - 1"
    by simp
  then show ?thesis
    by (simp only: zlib_crc32_def bit.xor_one_right)
qed

lemma crc_update_unfold:
  "crc_update c b =
     crc_shift (crc_shift (crc_shift (crc_shift (crc_shift (crc_shift (crc_shift (crc_shift
       (c XOR ucast b))))))))"
  by (simp add: crc_update_def eval_nat_numeral)

lemma zlib_crc32_check_value:
  "zlib_crc32 [0x31, 0x32, 0x33, 0x34, 0x35, 0x36, 0x37, 0x38, 0x39] = 0xCBF43926"
  by (simp add: zlib_crc32_def crc_update_unfold crc_shift_def)

subsection \<open>png_chunk and the reader\<close>

lemma png_chunk_eq:
  "png_chunk ty payload =
     (if length payload \<le> 4294967295 then Inr (chunk_layout ty payload)
      else Inl StructError)"
  using crc32_range [of "ty @ payload"]
  by (simp add: png_chunk_def struct_pack_I_def crc32_mask chunk_layout_def)

lemma length_chunk_layout: "length (chunk_layout ty payload) = 8 + length ty + length payload"
  by (simp add: chunk_layout_def length_be32)

lemma read_chunks_layout:
  assumes "length ty = 4" and "length payload \<le> 4294967295"
  shows "read_chunks (chunk_layout ty payload @ rest) =
           (case read_chunks rest of None \<Rightarrow> None | Some cs \<Rightarrow> Some ((ty, payload) # cs))"
proof -
  define bs where "bs = chunk_layout ty payload @ rest"
  have bs: "bs = be32 (int (length payload)) @ ty @ payload
                   @ be32 (zlib_crc32 (ty @ payload)) @ rest"
    by (simp add: bs_def chunk_layout_def)
  have len: "length bs = 12 + length payload + length rest"
    using assms by (simp add: bs length_be32)
  have "take 4 bs = be32 (int (length payload))"
    by (simp add: bs length_be32)
  then have n: "nat (read_be32 (take 4 bs)) = length payload"
    using assms by (simp add: read_be32_be32)
  have ty: "take 4 (drop 4 bs) = ty"
    using assms by (simp add: bs length_be32)
  have pl: "take (length payload) (drop 8 bs) = payload"
    using assms by (simp add: bs length_be32)
  have "take 4 (drop (8 + length payload) bs) = be32 (zlib_crc32 (ty @ payload))"
    using assms by (simp add: bs length_be32)
  then have crc: "read_be32 (take 4 (drop (8 + length payload) bs)) = zlib_crc32 (ty @ payload)"
    using crc32_range [of "ty @ payload"] by (simp add: read_be32_be32)
  have rest: "drop (12 + length payload) bs = rest"
    using assms by (simp add: bs length_be32)
  have ne: "bs \<noteq> []" and long: "\<not> length bs < 12" "\<not> length bs < 12 + length payload"
    using len by auto
  have "read_chunks bs =
          (case read_chunks rest of None \<Rightarrow> None | Some cs \<Rightarrow> Some ((ty, payload) # cs))"
    by (subst read_chunks.simps) (simp add: n ty pl crc rest Let_def ne long split: option.splits)
  then show ?thesis
    by (simp only: bs_def)
qed

lemma read_chunks_Nil: "read_chunks [] = Some []"
  by (simp add: read_chunks.simps)

subsection \<open>The byte stream\<close>

lemma struct_pack_ihdr:
  "struct_pack_IIBBBBB w h 8 2 0 0 0 =
     (if 0 \<le> w \<and> w \<le> 4294967295 \<and> 0 \<le> h \<and> h \<le> 4294967295
      then Inr (ihdr_payload w h) else Inl StructError)"
  by (simp add: struct_pack_IIBBBBB_def ihdr_payload_def)

lemma length_ihdr_payload: "length (ihdr_payload w h) = 13"
  by (simp add: ihdr_payload_def length_be32)

lemma png_bytes_ok:
  assumes "0 \<le> w" "w \<le> 4294967295" "0 \<le> h" "h \<le> 4294967295"
    and "scanlines w h rgb = Inr raw" and "length (C raw) \<le> 4294967295"
  shows "png_bytes C w h rgb = Inr (png_layout (ihdr_payload w h) (C raw))"
  using assms
  by (simp add: png_bytes_def struct_pack_ihdr png_chunk_eq length_ihdr_payload png_layout_def)

lemma png_bytes_Inr:
  assumes "png_bytes C w h rgb = Inr out"
  shows "0 \<le> w \<and> w \<le> 4294967295 \<and> 0 \<le> h \<and> h \<le> 4294967295 \<and>
         (\<exists>raw. scanlines w h rgb = Inr raw \<and> length (C raw) \<le> 4294967295 \<and>
                out = png_layout (ihdr_payload w h) (C raw))"
  using assms
  by (auto simp: png_bytes_def struct_pack_ihdr png_chunk_eq length_ihdr_payload png_layout_def
           split: if_splits sum.splits)

lemma png_bytes_StructError_dims:
  "\<not> (0 \<le> w \<and> w \<le> 4294967295 \<and> 0 \<le> h \<and> h \<le> 4294967295) \<Longrightarrow>
   png_bytes C w h rgb = Inl StructError"
  by (auto simp: png_bytes_def struct_pack_ihdr)

lemma png_bytes_ValueError:
  assumes "1 \<le> w" "w \<le> 4294967295" "1 \<le> h" "h \<le> 4294967295" "\<not> valid_color rgb"
  shows "png_bytes C w h rgb = Inl (ValueError ''bytes must be in range(0, 256)'')"
  using assms
  by (simp add: png_bytes_def struct_pack_ihdr png_chunk_eq length_ihdr_payload scanlines_bad)

lemma length_tags: "length IHDR = 4" "length IDAT = 4" "length IEND = 4"
  by (simp_all add: IHDR_def IDAT_def IEND_def)

lemma read_chunks_png_layout:
  assumes "length header \<le> 4294967295" and "length zdata \<le> 4294967295"
  shows "read_chunks (drop 8 (png_layout header zdata)) =
           Some [(IHDR, header), (IDAT, zdata), (IEND, [])]"
proof -
  have e: "read_chunks (chunk_layout IEND [] @ []) = Some [(IEND, [])]"
    by (subst read_chunks_layout) (simp_all add: length_tags read_chunks_Nil)
  have d: "read_chunks (chunk_layout IDAT zdata @ chunk_layout IEND [] @ []) =
             Some [(IDAT, zdata), (IEND, [])]"
    using assms by (subst read_chunks_layout) (simp_all only: length_tags e option.case)
  have h: "read_chunks (chunk_layout IHDR header @ chunk_layout IDAT zdata
                          @ chunk_layout IEND [] @ []) =
             Some [(IHDR, header), (IDAT, zdata), (IEND, [])]"
    using assms by (subst read_chunks_layout) (simp_all only: length_tags d option.case)
  have "drop 8 (png_layout header zdata) =
          chunk_layout IHDR header @ chunk_layout IDAT zdata @ chunk_layout IEND [] @ []"
    by (simp add: png_layout_def signature_def)
  then show ?thesis
    by (simp only: h)
qed

lemma png_bytes_stream:
  assumes "png_bytes C w h rgb = Inr stream"
  shows "\<exists>raw. scanlines w h rgb = Inr raw \<and>
           stream = png_layout (ihdr_payload w h) (C raw) \<and>
           png_chunk IHDR (ihdr_payload w h) = Inr (chunk_layout IHDR (ihdr_payload w h)) \<and>
           png_chunk IDAT (C raw) = Inr (chunk_layout IDAT (C raw)) \<and>
           png_chunk IEND [] = Inr (chunk_layout IEND []) \<and>
           read_chunks (drop 8 stream) =
             Some [(IHDR, ihdr_payload w h), (IDAT, C raw), (IEND, [])]"
proof -
  obtain raw where raw: "scanlines w h rgb = Inr raw" "length (C raw) \<le> 4294967295"
    "stream = png_layout (ihdr_payload w h) (C raw)"
    using png_bytes_Inr [OF assms] by blast
  have "read_chunks (drop 8 stream) = Some [(IHDR, ihdr_payload w h), (IDAT, C raw), (IEND, [])]"
    unfolding raw(3) using raw(2)
    by (intro read_chunks_png_layout) (simp_all add: length_ihdr_payload)
  then show ?thesis
    using raw by (simp add: png_chunk_eq length_ihdr_payload)
qed

lemma png_bytes_total:
  assumes "0 \<le> w" "w \<le> 4294967295" "0 \<le> h" "h \<le> 4294967295" "valid_color rgb"
    and "length (C (raw_image (nat w) (nat h) rgb)) \<le> 4294967295"
  shows "\<exists>stream. png_bytes C w h rgb = Inr stream"
  using assms png_bytes_ok [of w h rgb "raw_image (nat w) (nat h) rgb" C]
  by (simp add: scanlines_ok)

subsection \<open>Decoding the stream\<close>

lemma recon_line_none: "recon_line 0 prior acc xs = Some (acc @ xs)"
  by (induction xs arbitrary: acc) (simp_all add: recon_byte_def Let_def)

lemma length_pixels: "length (concat (replicate w (pixel rgb))) = 3 * w"
  by (simp add: length_concat length_pixel sum_list_replicate)

lemma raw_image_Suc: "raw_image w (Suc h) rgb = 0 # concat (replicate w (pixel rgb)) @ raw_image w h rgb"
  by (simp add: raw_image_def scanline_def)

lemma recon_rows_raw_image:
  "recon_rows h (3 * w) prior (raw_image w h rgb) =
     Some (replicate h (concat (replicate w (pixel rgb))))"
proof (induction h arbitrary: prior)
  case 0
  show ?case by (simp add: raw_image_def)
next
  case (Suc h)
  show ?case
    by (simp add: raw_image_Suc length_pixels recon_line_none Suc.IH)
qed

lemma rgba_pixels_solid:
  assumes "valid_color (r, g, b)"
  shows "rgba_pixels (concat (replicate w (pixel (r, g, b)))) = replicate w (r, g, b, 255)"
proof -
  have "uint (word_of_int r :: byte) = r" "uint (word_of_int g :: byte) = g"
       "uint (word_of_int b :: byte) = b"
    using assms by (simp_all add: valid_color_def uint_byte_of_int)
  then show ?thesis
    by (induction w) (simp_all add: pixel_def)
qed

lemma read_ihdr_payload:
  assumes "0 \<le> w" "w \<le> 4294967295" "0 \<le> h" "h \<le> 4294967295"
  shows "read_be32 (take 4 (ihdr_payload w h)) = w"
    and "read_be32 (take 4 (drop 4 (ihdr_payload w h))) = h"
    and "drop 8 (ihdr_payload w h) = [8, 2, 0, 0, 0]"
  using assms by (simp_all add: ihdr_payload_def length_be32 read_be32_be32)

lemma bit5_I: "\<not> bit (73 :: byte) 5"
  by (simp add: bit_iff_odd_drop_bit drop_bit_eq_div)

lemma not_ancillary_IDAT: "\<not> ancillary (IDAT, z)"
  using bit5_I by (simp add: ancillary_def IDAT_def)

lemma take_signature: "take 8 (png_layout header zdata) = signature"
  by (simp add: png_layout_def signature_def)

lemma png_decode_layout:
  assumes w: "1 \<le> w" "w \<le> 2147483647" and h: "1 \<le> h" "h \<le> 2147483647"
    and z: "length zdata \<le> 2147483647"
    and raw: "zlib_decompress zdata = Some raw"
    and rows: "recon_rows (nat h) (3 * nat w) (replicate (3 * nat w) 0) raw = Some rows"
  shows "png_decode zlib_decompress (png_layout (ihdr_payload w h) zdata) =
           Some \<lparr>img_width = nat w, img_height = nat h, img_rows = map rgba_pixels rows\<rparr>"
proof -
  have chunks: "read_chunks (drop 8 (png_layout (ihdr_payload w h) zdata)) =
                  Some [(IHDR, ihdr_payload w h), (IDAT, zdata), (IEND, [])]"
    using z by (intro read_chunks_png_layout) (simp_all add: length_ihdr_payload)
  have fields: "read_be32 (take 4 (ihdr_payload w h)) = w"
    "read_be32 (take 4 (drop 4 (ihdr_payload w h))) = h"
    "drop 8 (ihdr_payload w h) = [8, 2, 0, 0, 0]"
    using w h by (simp_all add: read_ihdr_payload)
  show ?thesis
    unfolding png_decode_def take_signature chunks
    using w h z raw rows
    by (simp add: Let_def fields length_ihdr_payload not_ancillary_IDAT is_idat_def)
qed

subsection \<open>A small image, evaluated\<close>

lemma raw_image_2x2_teal:
  "raw_image 2 2 (0, 150, 136) = [0, 0, 150, 136, 0, 150, 136, 0, 0, 150, 136, 0, 150, 136]"
  by (simp add: raw_image_def scanline_def pixel_def numeral_2_eq_2)

lemma zlib_store_2x2_teal:
  "zlib_store [0, 0, 150, 136, 0, 150, 136, 0, 0, 150, 136, 0, 150, 136] =
     [120, 1, 1, 14, 0, 241, 255, 0, 0, 150, 136, 0, 150, 136, 0, 0, 150, 136, 0, 150, 136,
      29, 54, 4, 121]"
  by (simp add: zlib_store_def stored_blocks.simps le16_def adler32_def be32_def)

lemma zlib_unstore_2x2_teal:
  "zlib_unstore
     [120, 1, 1, 14, 0, 241, 255, 0, 0, 150, 136, 0, 150, 136, 0, 0, 150, 136, 0, 150, 136,
      29, 54, 4, 121] =
   Some [0, 0, 150, 136, 0, 150, 136, 0, 0, 150, 136, 0, 150, 136]"
  by (simp add: zlib_unstore_def inflate_stored.simps adler32_def read_be32_def)

lemma png_chunk_IEND:
  "png_chunk IEND [] = Inr [0, 0, 0, 0, 73, 69, 78, 68, 174, 66, 96, 130]"
  by (simp add: png_chunk_eq chunk_layout_def IEND_def be32_def zlib_crc32_def crc_update_unfold
        crc_shift_def)

lemma png_bytes_1x1_black:
  "png_bytes zlib_store 1 1 (0, 0, 0) =
     Inr [137, 80, 78, 71, 13, 10, 26, 10,
          0, 0, 0, 13, 73, 72, 68, 82, 0, 0, 0, 1, 0, 0, 0, 1, 8, 2, 0, 0, 0, 144, 119, 83, 222,
          0, 0, 0, 15, 73, 68, 65, 84, 120, 1, 1, 4, 0, 251, 255, 0, 0, 0, 0, 0, 4, 0, 1,
          101, 73, 195, 96,
          0, 0, 0, 0, 73, 69, 78, 68, 174, 66, 96, 130]"
proof -
  have raw: "scanlines 1 1 (0, 0, 0) = Inr [0, 0, 0, 0]"
    by (simp add: scanlines_def bytes_of_ints_def)
  have z: "zlib_store [0, 0, 0, 0] = [120, 1, 1, 4, 0, 251, 255, 0, 0, 0, 0, 0, 4, 0, 1]"
    by (simp add: zlib_store_def stored_blocks.simps le16_def adler32_def be32_def)
  have "png_bytes zlib_store 1 1 (0, 0, 0) =
          Inr (png_layout (ihdr_payload 1 1) [120, 1, 1, 4, 0, 251, 255, 0, 0, 0, 0, 0, 4, 0, 1])"
    using png_bytes_ok [of 1 1 "(0, 0, 0)" "[0, 0, 0, 0]" zlib_store] raw
    by (simp add: z)
  also have "png_layout (ihdr_payload 1 1) [120, 1, 1, 4, 0, 251, 255, 0, 0, 0, 0, 0, 4, 0, 1] =
     [137, 80, 78, 71, 13, 10, 26, 10,
      0, 0, 0, 13, 73, 72, 68, 82, 0, 0, 0, 1, 0, 0, 0, 1, 8, 2, 0, 0, 0, 144, 119, 83, 222,
      0, 0, 0, 15, 73, 68, 65, 84, 120, 1, 1, 4, 0, 251, 255, 0, 0, 0, 0, 0, 4, 0, 1,
      101, 73, 195, 96,
      0, 0, 0, 0, 73, 69, 78, 68, 174, 66, 96, 130]"
    by (simp add: png_layout_def ihdr_payload_def chunk_layout_def signature_def IHDR_def
          IDAT_def IEND_def be32_def zlib_crc32_def crc_update_unfold crc_shift_def)
  finally show ?thesis .
qed

lemma uint_pixel:
  assumes "valid_color (r, g, b)"
  shows "map uint (pixel (r, g, b)) = [r, g, b]"
  using assms by (simp add: valid_color_def pixel_def uint_byte_of_int)

lemma small_image_fits:
  "valid_color (0, 0, 0) \<and>
   length (zlib_store (raw_image (nat 1) (nat 1) (0, 0, 0))) \<le> 4294967295"
  by (simp add: valid_color_def raw_image_def scanline_def pixel_def zlib_store_def
        stored_blocks.simps le16_def length_be32)

lemma ihdr_of_stream:
  assumes "png_bytes zlib_compress width height rgb = Inr stream"
  shows "\<exists>ihdr_data rest.
           png_chunk IHDR ihdr_data = Inr (chunk_layout IHDR ihdr_data) \<and>
           stream = signature @ chunk_layout IHDR ihdr_data @ rest \<and>
           ihdr_data = be32 width @ be32 height @ [8, 2, 0, 0, 0] \<and>
           length ihdr_data = 13 \<and>
           length (be32 width) = 4 \<and> read_be32 (be32 width) = width \<and>
           length (be32 height) = 4 \<and> read_be32 (be32 height) = height \<and>
           0 \<le> width \<and> width \<le> 4294967295 \<and> 0 \<le> height \<and> height \<le> 4294967295"
proof -
  have dims: "0 \<le> width" "width \<le> 4294967295" "0 \<le> height" "height \<le> 4294967295"
    using png_bytes_Inr [OF assms] by simp_all
  obtain raw where
    s: "stream = png_layout (ihdr_payload width height) (zlib_compress raw)"
    and c: "png_chunk IHDR (ihdr_payload width height) =
              Inr (chunk_layout IHDR (ihdr_payload width height))"
    using png_bytes_stream [OF assms] by blast
  show ?thesis
    apply (rule exI [of _ "ihdr_payload width height"])
    apply (rule exI [of _ "chunk_layout IDAT (zlib_compress raw) @ chunk_layout IEND []"])
    apply (intro conjI)
    subgoal by (rule c)
    subgoal by (simp add: s png_layout_def)
    subgoal by (simp add: ihdr_payload_def)
    subgoal by (rule length_ihdr_payload)
    subgoal by (rule length_be32)
    subgoal using dims by (simp add: read_be32_be32)
    subgoal by (rule length_be32)
    subgoal using dims by (simp add: read_be32_be32)
    subgoal by (rule dims)
    subgoal by (rule dims)
    subgoal by (rule dims)
    subgoal by (rule dims)
    done
qed

lemma structure_of_stream:
  assumes "png_bytes zlib_compress width height rgb = Inr stream"
  shows "take 8 stream = [0x89, 0x50, 0x4E, 0x47, 0x0D, 0x0A, 0x1A, 0x0A] \<and>
         (\<exists>ihdr_data idat_data.
            stream = signature @ chunk_layout IHDR ihdr_data @ chunk_layout IDAT idat_data
                       @ chunk_layout IEND [] \<and>
            read_chunks (drop 8 stream) =
              Some [(IHDR, ihdr_data), (IDAT, idat_data), (IEND, [])] \<and>
            hd (the (read_chunks (drop 8 stream))) = (IHDR, ihdr_data) \<and>
            last (the (read_chunks (drop 8 stream))) = (IEND, []) \<and>
            chunk_layout IEND [] = [0, 0, 0, 0, 0x49, 0x45, 0x4E, 0x44, 0xAE, 0x42, 0x60, 0x82])"
proof -
  obtain raw where
    s: "stream = png_layout (ihdr_payload width height) (zlib_compress raw)"
    and r: "read_chunks (drop 8 stream) =
              Some [(IHDR, ihdr_payload width height), (IDAT, zlib_compress raw), (IEND, [])]"
    using png_bytes_stream [OF assms] by blast
  have iend: "chunk_layout IEND [] = [0, 0, 0, 0, 0x49, 0x45, 0x4E, 0x44, 0xAE, 0x42, 0x60, 0x82]"
    using png_chunk_IEND by (simp add: png_chunk_eq)
  have sig: "take 8 stream = [0x89, 0x50, 0x4E, 0x47, 0x0D, 0x0A, 0x1A, 0x0A]"
    using take_signature [of "ihdr_payload width height" "zlib_compress raw"]
    by (simp add: s signature_def)
  show ?thesis
    apply (rule conjI)
    subgoal by (rule sig)
    apply (rule exI [of _ "ihdr_payload width height"])
    apply (rule exI [of _ "zlib_compress raw"])
    apply (intro conjI)
    subgoal by (simp add: s png_layout_def)
    subgoal by (rule r)
    subgoal by (simp add: r)
    subgoal by (simp add: r)
    subgoal by (rule iend)
    done
qed

section \<open>Properties of create_png on the file system\<close>

lemma create_png_encoder_error:
  "png_bytes C w h rgb = Inl e \<Longrightarrow> create_png C w h rgb filepath fs = (Inl e, fs)"
  by (simp add: create_png_def)

lemma create_png_stream:
  "png_bytes C w h rgb = Inr stream \<Longrightarrow>
   create_png C w h rgb filepath fs =
     (case os_makedirs (os_path_dirname filepath) fs of
        (Inl e, fs') \<Rightarrow> (Inl e, fs')
      | (Inr u, fs') \<Rightarrow> write_file filepath stream fs')"
  by (simp add: create_png_def)

lemma scanlines_empty:
  assumes "width \<le> 0 \<or> height \<le> 0"
  shows "scanlines width height rgb = Inr (replicate (nat height) 0)"
proof (cases "height \<le> 0")
  case True
  then show ?thesis by (simp add: scanlines_def)
next
  case False
  with assms have "nat width = 0" by simp
  then show ?thesis by (simp add: scanlines_def row_loop_no_pixels)
qed

lemma os_makedirs_empty: "os_makedirs [] fs = (Inl FileNotFoundError, fs)"
  by (subst os_makedirs.simps)
     (simp add: makedirs_split_def os_path_split_def mkdir_exist_ok_def os_mkdir_def
        path_error_def resolve_def strip_trailing_def os_path_isdir_def)

lemma dirname_no_slash:
  assumes "CHR ''/'' \<notin> set p"
  shows "os_path_dirname p = []"
proof -
  have "takeWhile (\<lambda>c. c \<noteq> CHR ''/'') (rev p) = rev p"
    using assms by (intro takeWhile_eq_all_conv [THEN iffD2]) auto
  then have "length (takeWhile (\<lambda>c. c \<noteq> CHR ''/'') (rev p)) = length p"
    by (simp only: length_rev)
  then show ?thesis
    by (simp add: os_path_dirname_def os_path_split_def Let_def)
qed

lemma create_png_bare_filename:
  assumes "CHR ''/'' \<notin> set filepath" and "png_bytes C w h rgb = Inr stream"
  shows "create_png C w h rgb filepath fs = (Inl FileNotFoundError, fs)"
  using assms by (simp add: create_png_stream dirname_no_slash os_makedirs_empty)

text \<open>
  The exceptions of the file-system calls: an \<open>OSError\<close>, or the \<open>ValueError\<close> of a
  path with a NUL character.
\<close>

definition fs_error :: "error \<Rightarrow> bool" where
  "fs_error e = (os_error e \<or> e = ValueError ''embedded null byte'')"

lemma walk_error: "walk ns cur cs = Inl e \<Longrightarrow> os_error e"
  by (induction ns cur cs rule: walk.induct)
     (auto simp: os_error_def split: option.splits node.splits if_splits)

lemma path_error_kind: "path_error path = Some e \<Longrightarrow> fs_error e"
  by (auto simp: path_error_def fs_error_def os_error_def split: if_splits)

lemma resolve_error: "resolve fs path = Inl e \<Longrightarrow> fs_error e"
  by (auto simp: resolve_def fs_error_def dest: walk_error path_error_kind
           split: option.splits)

lemma os_mkdir_error: "os_mkdir path fs = (Inl e, fs') \<Longrightarrow> fs_error e"
  by (auto simp: os_mkdir_def fs_error_def os_error_def dest: resolve_error path_error_kind
           split: sum.splits option.splits)

lemma mkdir_exist_ok_error: "mkdir_exist_ok name fs = (Inl e, fs') \<Longrightarrow> fs_error e"
  by (auto simp: mkdir_exist_ok_def dest: os_mkdir_error
           split: prod.splits sum.splits if_splits)

lemma os_makedirs_error: "os_makedirs name fs = (Inl e, fs') \<Longrightarrow> fs_error e"
proof (induction name fs arbitrary: e fs' rule: os_makedirs.induct)
  case (1 name fs)
  show ?case
    using "1.prems" "1.IH"
    by (subst (asm) os_makedirs.simps)
       (auto dest: mkdir_exist_ok_error split: if_splits prod.splits sum.splits)
qed

lemma write_file_error: "write_file path data fs = (Inl e, fs') \<Longrightarrow> fs_error e"
  by (auto simp: write_file_def fs_error_def os_error_def dest: resolve_error path_error_kind
           split: sum.splits option.splits node.splits if_splits)

lemma png_bytes_error:
  "png_bytes C w h rgb = Inl e \<Longrightarrow>
   e = StructError \<or> (e = ValueError ''bytes must be in range(0, 256)'' \<and> \<not> valid_color rgb)"
  by (auto simp: png_bytes_def struct_pack_ihdr png_chunk_eq
           dest: scanlines_error split: if_splits sum.splits)

lemma create_png_error:
  assumes "create_png C w h rgb filepath fs = (Inl e, fs')"
  shows "e = StructError \<or>
         (e = ValueError ''bytes must be in range(0, 256)'' \<and> \<not> valid_color rgb) \<or>
         fs_error e"
proof (cases "png_bytes C w h rgb")
  case (Inl e')
  then show ?thesis
    using assms png_bytes_error [OF Inl] by (auto simp: create_png_encoder_error)
next
  case (Inr stream)
  obtain r fs1 where m: "os_makedirs (os_path_dirname filepath) fs = (r, fs1)"
    by (cases "os_makedirs (os_path_dirname filepath) fs") auto
  show ?thesis
  proof (cases r)
    case (Inl e')
    then have "fs_error e"
      using assms m os_makedirs_error [of "os_path_dirname filepath" fs e' fs1]
      by (simp add: create_png_stream [OF Inr])
    then show ?thesis by simp
  next
    case (Inr u)
    then have "write_file filepath stream fs1 = (Inl e, fs')"
      using assms m by (simp add: create_png_stream [OF \<open>png_bytes C w h rgb = Inr stream\<close>])
    then have "fs_error e"
      by (rule write_file_error)
    then show ?thesis by simp
  qed
qed

subsection \<open>Reading back what was written\<close>

lemma walk_upd:
  assumes "walk ns cur cs = Inr q" and "ns q \<noteq> Some Dir"
  shows "walk (ns(q \<mapsto> n)) cur cs = Inr q"
  using assms
proof (induction ns cur cs rule: walk.induct)
  case (1 ns cur)
  then show ?case by simp
next
  case (2 ns cur c cs)
  from "2.prems" have d: "ns cur = Some Dir"
    by (auto split: option.splits node.splits)
  with "2.prems" have ne: "cur \<noteq> q"
    by auto
  show ?case
    using "2.prems" "2.IH" d ne
    by (auto split: if_splits)
qed

lemma write_file_read_file:
  assumes "write_file path data fs = (Inr (), fs')"
  shows "read_file fs' path = Some data"
proof -
  from assms have st: "strip_trailing path = path"
    by (auto simp: write_file_def split: sum.splits option.splits node.splits if_splits)
  from assms obtain q where q: "resolve fs path = Inr q" and nd: "nodes fs q \<noteq> Some Dir"
    and fs': "fs' = fs\<lparr>nodes := (nodes fs)(q \<mapsto> File data)\<rparr>"
    by (auto simp: write_file_def st split: sum.splits option.splits node.splits if_splits)
  have "resolve fs' path = Inr q"
    using q nd by (auto simp: resolve_def fs' walk_upd split: if_splits option.splits)
  then show ?thesis
    by (simp add: read_file_def fs')
qed

lemma create_png_written:
  assumes "create_png C w h rgb filepath fs = (Inr (), fs')"
  shows "\<exists>stream. png_bytes C w h rgb = Inr stream \<and> read_file fs' filepath = Some stream"
proof (cases "png_bytes C w h rgb")
  case (Inl e)
  then show ?thesis
    using assms by (simp add: create_png_encoder_error)
next
  case (Inr stream)
  then have "\<exists>fs1. write_file filepath stream fs1 = (Inr (), fs')"
    using assms
    by (auto simp: create_png_stream split: prod.splits sum.splits)
  then show ?thesis
    using Inr write_file_read_file by blast
qed

lemmas path_eval =
  os_path_dirname_def os_path_split_def rstrip_slashes_def makedirs_split_def
  os_path_exists_def os_path_isdir_def os_path_isabs_def resolve_def strip_trailing_def
  mkdir_exist_ok_def os_mkdir_def write_file_def read_file_def path_error_def
  os_error_def Let_def

lemma png_bytes_0x1:
  "png_bytes zlib_store 0 1 (0, 150, 136) =
     Inr [137, 80, 78, 71, 13, 10, 26, 10,
          0, 0, 0, 13, 73, 72, 68, 82, 0, 0, 0, 0, 0, 0, 0, 1, 8, 2, 0, 0, 0, 127, 181, 56, 224,
          0, 0, 0, 12, 73, 68, 65, 84, 120, 1, 1, 1, 0, 254, 255, 0, 0, 1, 0, 1, 247, 141, 1, 81,
          0, 0, 0, 0, 73, 69, 78, 68, 174, 66, 96, 130]"
proof -
  have raw: "scanlines 0 1 (0, 150, 136) = Inr [0]"
    by (simp add: scanlines_def)
  have z: "zlib_store [0] = [120, 1, 1, 1, 0, 254, 255, 0, 0, 1, 0, 1]"
    by (simp add: zlib_store_def stored_blocks.simps le16_def adler32_def be32_def)
  have "png_bytes zlib_store 0 1 (0, 150, 136) =
          Inr (png_layout (ihdr_payload 0 1) [120, 1, 1, 1, 0, 254, 255, 0, 0, 1, 0, 1])"
    using png_bytes_ok [of 0 1 "(0, 150, 136)" "[0]" zlib_store] raw
    by (simp add: z)
  also have "png_layout (ihdr_payload 0 1) [120, 1, 1, 1, 0, 254, 255, 0, 0, 1, 0, 1] =
     [137, 80, 78, 71, 13, 10, 26, 10,
      0, 0, 0, 13, 73, 72, 68, 82, 0, 0, 0, 0, 0, 0, 0, 1, 8, 2, 0, 0, 0, 127, 181, 56, 224,
      0, 0, 0, 12, 73, 68, 65, 84, 120, 1, 1, 1, 0, 254, 255, 0, 0, 1, 0, 1, 247, 141, 1, 81,
      0, 0, 0, 0, 73, 69, 78, 68, 174, 66, 96, 130]"
    by (simp add: png_layout_def ihdr_payload_def chunk_layout_def signature_def IHDR_def
          IDAT_def IEND_def be32_def zlib_crc32_def crc_update_unfold crc_shift_def)
  finally show ?thesis .
qed

lemma png_bytes_0x0:
  "png_bytes zlib_store 0 0 (0, 150, 300) =
     Inr [137, 80, 78, 71, 13, 10, 26, 10,
          0, 0, 0, 13, 73, 72, 68, 82, 0, 0, 0, 0, 0, 0, 0, 0, 8, 2, 0, 0, 0, 180, 233, 235, 69,
          0, 0, 0, 11, 73, 68, 65, 84, 120, 1, 1, 0, 0, 255, 255, 0, 0, 0, 1, 137, 214, 174, 95,
          0, 0, 0, 0, 73, 69, 78, 68, 174, 66, 96, 130]"
proof -
  have raw: "scanlines 0 0 (0, 150, 300) = Inr []"
    by (simp add: scanlines_def)
  have z: "zlib_store [] = [120, 1, 1, 0, 0, 255, 255, 0, 0, 0, 1]"
    by (simp add: zlib_store_def stored_blocks.simps le16_def adler32_def be32_def)
  have "png_bytes zlib_store 0 0 (0, 150, 300) =
          Inr (png_layout (ihdr_payload 0 0) [120, 1, 1, 0, 0, 255, 255, 0, 0, 0, 1])"
    using png_bytes_ok [of 0 0 "(0, 150, 300)" "[]" zlib_store] raw
    by (simp add: z)
  also have "png_layout (ihdr_payload 0 0) [120, 1, 1, 0, 0, 255, 255, 0, 0, 0, 1] =
     [137, 80, 78, 71, 13, 10, 26, 10,
      0, 0, 0, 13, 73, 72, 68, 82, 0, 0, 0, 0, 0, 0, 0, 0, 8, 2, 0, 0, 0, 180, 233, 235, 69,
      0, 0, 0, 11, 73, 68, 65, 84, 120, 1, 1, 0, 0, 255, 255, 0, 0, 0, 1, 137, 214, 174, 95,
      0, 0, 0, 0, 73, 69, 78, 68, 174, 66, 96, 130]"
    by (simp add: png_layout_def ihdr_payload_def chunk_layout_def signature_def IHDR_def
          IDAT_def IEND_def be32_def zlib_crc32_def crc_update_unfold crc_shift_def)
  finally show ?thesis .
qed

lemma makedirs_out:
  "os_makedirs ''/out'' root_fs =
     (Inr (), \<lparr>cwd = [], nodes = [[] \<mapsto> Dir, [''out''] \<mapsto> Dir]\<rparr>)"
  by (subst os_makedirs.simps) (simp add: path_eval root_fs_def)

lemma write_out_icon:
  "write_file ''/out/icon.png'' stream \<lparr>cwd = [], nodes = [[] \<mapsto> Dir, [''out''] \<mapsto> Dir]\<rparr> =
     (Inr (), \<lparr>cwd = [],
               nodes = [[] \<mapsto> Dir, [''out''] \<mapsto> Dir, [''out'', ''icon.png''] \<mapsto> File stream]\<rparr>)"
  by (simp add: path_eval)

lemma read_out_icon:
  "read_file \<lparr>cwd = [],
              nodes = [[] \<mapsto> Dir, [''out''] \<mapsto> Dir, [''out'', ''icon.png''] \<mapsto> File stream]\<rparr>
     ''/out/icon.png'' = Some stream"
  by (simp add: path_eval)

lemma create_png_out_icon:
  assumes "png_bytes C w h rgb = Inr stream"
  shows "create_png C w h rgb ''/out/icon.png'' root_fs =
     (Inr (), \<lparr>cwd = [],
               nodes = [[] \<mapsto> Dir, [''out''] \<mapsto> Dir, [''out'', ''icon.png''] \<mapsto> File stream]\<rparr>)"
proof -
  have "os_path_dirname ''/out/icon.png'' = ''/out''"
    by (simp add: path_eval)
  then show ?thesis
    by (simp add: create_png_stream [OF assms] makedirs_out write_out_icon)
qed

subsection \<open>Colours of any type\<close>

lemma bytes_of_objects_ints: "bytes_of_objects (map PyInt xs) = bytes_of_ints xs"
  by (induction xs) (auto simp: bytes_of_ints_def)

lemma pixel_loop_dyn_int:
  "pixel_loop_dyn n (PyInt r, PyInt g, PyInt b) acc = pixel_loop n (r, g, b) acc"
proof (induction n arbitrary: acc)
  case 0
  show ?case by simp
next
  case (Suc n)
  have "bytes_of_objects [PyInt r, PyInt g, PyInt b] = bytes_of_ints [r, g, b]"
    using bytes_of_objects_ints [of "[r, g, b]"] by simp
  then show ?case
    by (simp add: Suc.IH split: sum.splits)
qed

lemma row_loop_dyn_int:
  "row_loop_dyn n w (PyInt r, PyInt g, PyInt b) acc = row_loop n w (r, g, b) acc"
  by (induction n arbitrary: acc) (simp_all add: pixel_loop_dyn_int split: sum.splits)

lemma scanlines_dyn_int:
  "scanlines_dyn w h (PyInt r, PyInt g, PyInt b) = scanlines w h (r, g, b)"
  by (simp add: scanlines_dyn_def scanlines_def row_loop_dyn_int)

lemma png_bytes_dyn_int:
  "png_bytes_dyn C w h (PyInt r, PyInt g, PyInt b) = png_bytes C w h (r, g, b)"
  unfolding png_bytes_dyn_def png_bytes_def scanlines_dyn_int by (rule refl)

lemma create_png_dyn_int:
  "create_png_dyn C w h (PyInt r, PyInt g, PyInt b) filepath fs =
   create_png C w h (r, g, b) filepath fs"
  by (simp add: create_png_dyn_def create_png_def png_bytes_dyn_int)

lemma byte_valued_bytes:
  "byte_valued (r, g, b) \<longleftrightarrow> (\<exists>px. bytes_of_objects [r, g, b] = Inr px)"
  by (cases r; cases g; cases b) (auto simp: valid_color_def)

lemma bytes_of_objects_error:
  "bytes_of_objects xs = Inl e \<Longrightarrow>
   e = ValueError ''bytes must be in range(0, 256)'' \<or> e = TypeError"
  by (induction xs rule: bytes_of_objects.induct) (auto split: if_splits sum.splits)

lemma pixel_loop_dyn_bad:
  "bytes_of_objects [r, g, b] = Inl e \<Longrightarrow> 0 < n \<Longrightarrow> pixel_loop_dyn n (r, g, b) acc = Inl e"
  by (cases n) simp_all

lemma row_loop_dyn_bad:
  "bytes_of_objects [r, g, b] = Inl e \<Longrightarrow> 0 < n \<Longrightarrow> 0 < w \<Longrightarrow>
   row_loop_dyn n w (r, g, b) acc = Inl e"
  by (cases n) (simp_all add: pixel_loop_dyn_bad)

lemma png_bytes_dyn_bad:
  assumes "bytes_of_objects [r, g, b] = Inl e"
    and "1 \<le> w" "w \<le> 4294967295" "1 \<le> h" "h \<le> 4294967295"
  shows "png_bytes_dyn C w h (r, g, b) = Inl e"
proof -
  have "scanlines_dyn w h (r, g, b) = Inl e"
    using assms by (simp add: scanlines_dyn_def row_loop_dyn_bad)
  then show ?thesis
    using assms by (simp add: png_bytes_dyn_def struct_pack_ihdr png_chunk_eq length_ihdr_payload)
qed

lemma png_bytes_dyn_StructError:
  assumes "w < 0 \<or> 4294967295 < w \<or> h < 0 \<or> 4294967295 < h"
  shows "png_bytes_dyn C w h rgb = Inl StructError"
  using assms by (auto simp: png_bytes_dyn_def struct_pack_ihdr)

lemma row_loop_dyn_no_pixels: "row_loop_dyn n 0 rgb acc = Inr (acc @ replicate n 0)"
  by (induction n arbitrary: acc) (simp_all add: replicate_app_Cons_same)

lemma scanlines_dyn_empty:
  assumes "width \<le> 0 \<or> height \<le> 0"
  shows "scanlines_dyn width height rgb = Inr (replicate (nat height) 0)"
proof (cases "height \<le> 0")
  case True
  then show ?thesis by (simp add: scanlines_dyn_def)
next
  case False
  with assms have "nat width = 0" by simp
  then show ?thesis by (simp add: scanlines_dyn_def row_loop_dyn_no_pixels)
qed

lemma png_bytes_dyn_empty:
  assumes "width \<le> 0 \<or> height \<le> 0"
  shows "png_bytes_dyn C width height rgb = png_bytes C width height rgb'"
  unfolding png_bytes_dyn_def png_bytes_def scanlines_dyn_empty [OF assms]
    scanlines_empty [OF assms]
  by (rule refl)

lemma create_png_dyn_empty:
  assumes "width \<le> 0 \<or> height \<le> 0"
  shows "create_png_dyn C width height rgb filepath fs = create_png C width height rgb' filepath fs"
  using png_bytes_dyn_empty [OF assms, of C rgb rgb']
  by (simp add: create_png_dyn_def create_png_def)

lemma fs_error_not_bytes:
  "fs_error e \<Longrightarrow> e \<noteq> ValueError ''bytes must be in range(0, 256)'' \<and> e \<noteq> TypeError"
  by (auto simp: fs_error_def os_error_def)

lemma scanlines_dyn_ok:
  assumes "byte_valued (r, g, b)"
  shows "\<exists>raw_data. scanlines_dyn width height (r, g, b) = Inr raw_data"
proof -
  from assms obtain x y z where c: "r = PyInt x" "g = PyInt y" "b = PyInt z"
    and vc: "valid_color (x, y, z)"
    by (cases r; cases g; cases b) auto
  show ?thesis
    using scanlines_ok [OF vc, of width height] by (simp add: c scanlines_dyn_int)
qed

lemma png_bytes_dyn_error:
  assumes "byte_valued (r, g, b)" and "png_bytes_dyn C w h (r, g, b) = Inl e"
  shows "e = StructError"
proof -
  from assms(1) obtain x y z where c: "r = PyInt x" "g = PyInt y" "b = PyInt z"
    and vc: "valid_color (x, y, z)"
    by (cases r; cases g; cases b) auto
  have "png_bytes C w h (x, y, z) = Inl e"
    using assms(2) by (simp add: c png_bytes_dyn_int)
  from png_bytes_error [OF this] vc show ?thesis
    by simp
qed

section \<open>The claims\<close>

text \<open>
  Claim C1, as amended. For every width and height between 1 and \<open>2^31 - 1\<close> (the
  range of a four-byte integer of the format) and every colour with its channels in
  \<open>[0, 255]\<close>: when the compressed scanlines are at most \<open>2^31 - 1\<close> bytes long and the
  decompressor recovers the scanlines from them, \<open>create_png\<close> produces a byte stream,
  and the decoder reads it as an image of exactly width by height pixels, every pixel
  the input colour with alpha 255.
\<close>

theorem solid_png_decodes:
  assumes "1 \<le> width" "width \<le> 2147483647" "1 \<le> height" "height \<le> 2147483647"
    and "valid_color rgb"
    and "length (zlib_compress (raw_image (nat width) (nat height) rgb)) \<le> 2147483647"
    and "zlib_decompress (zlib_compress (raw_image (nat width) (nat height) rgb)) =
           Some (raw_image (nat width) (nat height) rgb)"
  shows "\<exists>stream. png_bytes zlib_compress width height rgb = Inr stream \<and>
           png_decode zlib_decompress stream = Some (solid_image (nat width) (nat height) rgb)"
proof -
  obtain r g b where rgb: "rgb = (r, g, b)"
    by (cases rgb) auto
  let ?raw = "raw_image (nat width) (nat height) rgb"
  have enc: "png_bytes zlib_compress width height rgb =
               Inr (png_layout (ihdr_payload width height) (zlib_compress ?raw))"
    using assms by (intro png_bytes_ok) (simp_all add: scanlines_ok)
  have "png_decode zlib_decompress (png_layout (ihdr_payload width height) (zlib_compress ?raw)) =
          Some \<lparr>img_width = nat width, img_height = nat height,
                img_rows = map rgba_pixels
                  (replicate (nat height) (concat (replicate (nat width) (pixel rgb))))\<rparr>"
  proof (rule png_decode_layout)
    show "recon_rows (nat height) (3 * nat width) (replicate (3 * nat width) 0) ?raw =
            Some (replicate (nat height) (concat (replicate (nat width) (pixel rgb))))"
      by (rule recon_rows_raw_image)
  qed (use assms in simp_all)
  also have "\<dots> = Some (solid_image (nat width) (nat height) rgb)"
    using assms(5) by (simp add: rgb solid_image_def rgba_pixels_solid)
  finally show ?thesis
    using enc by simp
qed

theorem solid_png_decodes_witness:
  "valid_color (0, 150, 136) \<and>
   length (zlib_store (raw_image 2 2 (0, 150, 136))) \<le> 2147483647 \<and>
   zlib_unstore (zlib_store (raw_image 2 2 (0, 150, 136))) = Some (raw_image 2 2 (0, 150, 136)) \<and>
   (\<exists>stream. png_bytes zlib_store 2 2 (0, 150, 136) = Inr stream \<and>
      png_decode zlib_unstore stream = Some (solid_image 2 2 (0, 150, 136)))"
proof -
  have c: "valid_color (0, 150, 136)"
    by (simp add: valid_color_def)
  have l: "length (zlib_store (raw_image 2 2 (0, 150, 136))) \<le> 2147483647"
    by (simp only: raw_image_2x2_teal zlib_store_2x2_teal) simp
  have d: "zlib_unstore (zlib_store (raw_image 2 2 (0, 150, 136))) =
             Some (raw_image 2 2 (0, 150, 136))"
    by (simp only: raw_image_2x2_teal zlib_store_2x2_teal zlib_unstore_2x2_teal)
  show ?thesis
    using c l d solid_png_decodes [of 2 2 "(0, 150, 136)" zlib_store zlib_unstore]
    by simp
qed


text \<open>
  The claim as stated, for every width \<open>\<ge> 1\<close>, fails at width \<open>2^32\<close>:
  \<open>struct.pack('>IIBBBBB', ...)\<close> raises \<open>struct.error\<close>, no stream is produced, and
  the file system is left as it was.
\<close>

theorem oversized_width_counterexample:
  "valid_color (0, 150, 136) \<and>
   png_bytes zlib_store 4294967296 1 (0, 150, 136) = Inl StructError \<and>
   create_png zlib_store 4294967296 1 (0, 150, 136) ''/out/icon.png'' root_fs =
     (Inl StructError, root_fs)"
  by (simp add: valid_color_def create_png_def png_bytes_StructError_dims)

text \<open>
  Claim C3. Every chunk \<open>png_chunk\<close> returns is the 4-byte big-endian length of the
  payload, the type tag, the payload, and the 4-byte big-endian CRC-32 of tag and payload
  (register preset to \<open>0xFFFFFFFF\<close>, complemented at the end); both fields read back
  as the payload length and the CRC. The byte stream of \<open>create_png\<close> is the signature
  followed by the three chunks \<open>png_chunk\<close> returned for IHDR, IDAT and IEND, and a
  reader that recomputes the CRC-32 of every chunk over tag and payload accepts all three.
\<close>

theorem png_chunk_serialization:
  "(png_chunk chunk_type data = Inr chunk \<longrightarrow>
      chunk = be32 (int (length data)) @ chunk_type @ data
                @ be32 (zlib_crc32 (chunk_type @ data)) \<and>
      length (be32 (int (length data))) = 4 \<and>
      read_be32 (be32 (int (length data))) = int (length data) \<and>
      length (be32 (zlib_crc32 (chunk_type @ data))) = 4 \<and>
      read_be32 (be32 (zlib_crc32 (chunk_type @ data))) = zlib_crc32 (chunk_type @ data) \<and>
      zlib_crc32 (chunk_type @ data) =
        uint (NOT (foldl crc_update 0xFFFFFFFF (chunk_type @ data)))) \<and>
   (png_bytes zlib_compress width height rgb = Inr stream \<longrightarrow>
      (\<exists>ihdr_data idat_data ihdr idat iend.
         png_chunk IHDR ihdr_data = Inr ihdr \<and> png_chunk IDAT idat_data = Inr idat \<and>
         png_chunk IEND [] = Inr iend \<and> stream = signature @ ihdr @ idat @ iend \<and>
         read_chunks (drop 8 stream) =
           Some [(IHDR, ihdr_data), (IDAT, idat_data), (IEND, [])]))"
proof (intro conjI impI)
  assume c: "png_chunk chunk_type data = Inr chunk"
  then have len: "length data \<le> 4294967295"
    by (simp add: png_chunk_eq split: if_splits)
  show "chunk = be32 (int (length data)) @ chunk_type @ data
                  @ be32 (zlib_crc32 (chunk_type @ data))"
    using c len by (simp add: png_chunk_eq chunk_layout_def)
  show "read_be32 (be32 (int (length data))) = int (length data)"
    using len by (simp add: read_be32_be32)
  show "read_be32 (be32 (zlib_crc32 (chunk_type @ data))) = zlib_crc32 (chunk_type @ data)"
    using crc32_range [of "chunk_type @ data"] by (simp add: read_be32_be32)
  show "zlib_crc32 (chunk_type @ data) =
          uint (NOT (foldl crc_update 0xFFFFFFFF (chunk_type @ data)))"
    by (rule zlib_crc32_complement)
next
  assume "png_bytes zlib_compress width height rgb = Inr stream"
  then obtain raw where
    "stream = png_layout (ihdr_payload width height) (zlib_compress raw)"
    "png_chunk IHDR (ihdr_payload width height) =
       Inr (chunk_layout IHDR (ihdr_payload width height))"
    "png_chunk IDAT (zlib_compress raw) = Inr (chunk_layout IDAT (zlib_compress raw))"
    "png_chunk IEND [] = Inr (chunk_layout IEND [])"
    "read_chunks (drop 8 stream) =
       Some [(IHDR, ihdr_payload width height), (IDAT, zlib_compress raw), (IEND, [])]"
    using png_bytes_stream by blast
  then show "\<exists>ihdr_data idat_data ihdr idat iend.
         png_chunk IHDR ihdr_data = Inr ihdr \<and> png_chunk IDAT idat_data = Inr idat \<and>
         png_chunk IEND [] = Inr iend \<and> stream = signature @ ihdr @ idat @ iend \<and>
         read_chunks (drop 8 stream) =
           Some [(IHDR, ihdr_data), (IDAT, idat_data), (IEND, [])]"
    by (auto simp: png_layout_def)
qed (simp_all add: length_be32)

theorem png_chunk_serialization_witness:
  "png_chunk IEND [] = Inr [0, 0, 0, 0, 73, 69, 78, 68, 174, 66, 96, 130] \<and>
   [0, 0, 0, 0, 73, 69, 78, 68, 174, 66, 96, 130] =
     be32 (int (length ([] :: bytes))) @ IEND @ [] @ be32 (zlib_crc32 (IEND @ [])) \<and>
   read_be32 (be32 (zlib_crc32 (IEND @ []))) = zlib_crc32 (IEND @ []) \<and>
   (\<exists>stream. png_bytes zlib_store 1 1 (0, 0, 0) = Inr stream \<and>
      (\<exists>ihdr_data idat_data.
         read_chunks (drop 8 stream) = Some [(IHDR, ihdr_data), (IDAT, idat_data), (IEND, [])]))"
proof -
  obtain stream where s: "png_bytes zlib_store 1 1 (0, 0, 0) = Inr stream"
    using png_bytes_1x1_black by blast
  note t = png_chunk_serialization
             [of IEND "[]" "[0, 0, 0, 0, 73, 69, 78, 68, 174, 66, 96, 130]"
                 zlib_store 1 1 "(0, 0, 0)" stream]
  have a: "[0, 0, 0, 0, 73, 69, 78, 68, 174, 66, 96, 130] =
             be32 (int (length ([] :: bytes))) @ IEND @ [] @ be32 (zlib_crc32 (IEND @ []))"
    and b: "read_be32 (be32 (zlib_crc32 (IEND @ []))) = zlib_crc32 (IEND @ [])"
    using t png_chunk_IEND by blast+
  have c: "\<exists>ihdr_data idat_data.
         read_chunks (drop 8 stream) = Some [(IHDR, ihdr_data), (IDAT, idat_data), (IEND, [])]"
    using t s by blast
  show ?thesis
    using png_chunk_IEND a b c s by blast
qed

text \<open>
  Claim C4. For every width and height of at least 1 (and a colour of three bytes), the
  loops of lines 30-34 build a buffer of exactly height rows, each row the filter-type
  byte 0 followed by width pixels of the three bytes R, G, B: a row is \<open>1 + 3 * width\<close>
  bytes long, the buffer \<open>height * (1 + 3 * width)\<close>. The payload of the IDAT chunk of
  every stream produced is the compressed buffer, so decompressing it gives the buffer
  back; a stream is produced when the dimensions and the compressed length fit their
  four-byte fields.
\<close>

theorem raw_scanline_buffer:
  assumes "1 \<le> width" and "1 \<le> height" and "valid_color (r, g, b)"
    and "zlib_decompress (zlib_compress (raw_image (nat width) (nat height) (r, g, b))) =
           Some (raw_image (nat width) (nat height) (r, g, b))"
  shows "\<exists>raw_data row.
           scanlines width height (r, g, b) = Inr raw_data \<and>
           row = 0 # concat (replicate (nat width) (pixel (r, g, b))) \<and>
           map uint (pixel (r, g, b)) = [r, g, b] \<and>
           raw_data = concat (replicate (nat height) row) \<and>
           length row = 1 + 3 * nat width \<and>
           length raw_data = nat height * (1 + 3 * nat width) \<and>
           (\<forall>stream. png_bytes zlib_compress width height (r, g, b) = Inr stream \<longrightarrow>
              (\<exists>header zdata.
                 read_chunks (drop 8 stream) =
                   Some [(IHDR, header), (IDAT, zdata), (IEND, [])] \<and>
                 zdata = zlib_compress raw_data \<and>
                 zlib_decompress zdata = Some raw_data)) \<and>
           (width \<le> 4294967295 \<and> height \<le> 4294967295 \<and>
            length (zlib_compress raw_data) \<le> 4294967295 \<longrightarrow>
              (\<exists>stream. png_bytes zlib_compress width height (r, g, b) = Inr stream))"
proof -
  let ?rgb = "(r, g, b)"
  let ?raw = "raw_image (nat width) (nat height) ?rgb"
  let ?row = "0 # concat (replicate (nat width) (pixel ?rgb))"
  have sc: "scanlines width height ?rgb = Inr ?raw"
    using assms(3) by (rule scanlines_ok)
  have raw: "?raw = concat (replicate (nat height) ?row)"
    by (simp add: raw_image_def scanline_def)
  have lrow: "length ?row = 1 + 3 * nat width"
    using length_scanline [of "nat width" ?rgb] by (simp add: scanline_def)
  have lraw: "length ?raw = nat height * (1 + 3 * nat width)"
    by (rule length_raw_image)
  have idat: "\<exists>header zdata.
                 read_chunks (drop 8 stream) =
                   Some [(IHDR, header), (IDAT, zdata), (IEND, [])] \<and>
                 zdata = zlib_compress ?raw \<and> zlib_decompress zdata = Some ?raw"
    if "png_bytes zlib_compress width height ?rgb = Inr stream" for stream
    using png_bytes_stream [OF that] sc assms(4) by auto
  have total: "\<exists>stream. png_bytes zlib_compress width height ?rgb = Inr stream"
    if "width \<le> 4294967295 \<and> height \<le> 4294967295 \<and>
        length (zlib_compress ?raw) \<le> 4294967295"
    using that assms(1-3) by (intro png_bytes_total) simp_all
  show ?thesis
    apply (rule exI [of _ ?raw])
    apply (rule exI [of _ ?row])
    apply (intro conjI allI impI)
    subgoal by (rule sc)
    subgoal by (rule refl)
    subgoal by (rule uint_pixel [OF assms(3)])
    subgoal by (rule raw)
    subgoal by (rule lrow)
    subgoal by (rule lraw)
    subgoal for stream by (rule idat)
    subgoal by (rule total)
    done
qed

theorem raw_scanline_buffer_witness:
  "valid_color (0, 150, 136) \<and>
   zlib_unstore (zlib_store (raw_image (nat 2) (nat 2) (0, 150, 136))) =
     Some (raw_image (nat 2) (nat 2) (0, 150, 136)) \<and>
   scanlines 2 2 (0, 150, 136) =
     Inr [0, 0, 150, 136, 0, 150, 136, 0, 0, 150, 136, 0, 150, 136] \<and>
   (\<exists>stream header.
      png_bytes zlib_store 2 2 (0, 150, 136) = Inr stream \<and>
      read_chunks (drop 8 stream) =
        Some [(IHDR, header),
              (IDAT, zlib_store [0, 0, 150, 136, 0, 150, 136, 0, 0, 150, 136, 0, 150, 136]),
              (IEND, [])] \<and>
      zlib_unstore (zlib_store [0, 0, 150, 136, 0, 150, 136, 0, 0, 150, 136, 0, 150, 136]) =
        Some [0, 0, 150, 136, 0, 150, 136, 0, 0, 150, 136, 0, 150, 136])"
proof -
  have c: "valid_color (0, 150, 136)"
    by (simp add: valid_color_def)
  have n: "nat 2 = 2"
    by simp
  have d: "zlib_unstore (zlib_store (raw_image (nat 2) (nat 2) (0, 150, 136))) =
             Some (raw_image (nat 2) (nat 2) (0, 150, 136))"
    by (simp only: n raw_image_2x2_teal zlib_store_2x2_teal zlib_unstore_2x2_teal)
  have l: "length (zlib_store [0, 0, 150, 136, 0, 150, 136, 0, 0, 150, 136, 0, 150, 136])
             \<le> 4294967295"
    by (simp only: zlib_store_2x2_teal) simp
  have s: "scanlines 2 2 (0, 150, 136) =
             Inr [0, 0, 150, 136, 0, 150, 136, 0, 0, 150, 136, 0, 150, 136]"
    using scanlines_ok [OF c, of 2 2] by (simp only: n raw_image_2x2_teal)
  obtain raw_data where
    r: "scanlines 2 2 (0, 150, 136) = Inr raw_data"
    and i: "\<forall>stream. png_bytes zlib_store 2 2 (0, 150, 136) = Inr stream \<longrightarrow>
              (\<exists>header zdata.
                 read_chunks (drop 8 stream) =
                   Some [(IHDR, header), (IDAT, zdata), (IEND, [])] \<and>
                 zdata = zlib_store raw_data \<and> zlib_unstore zdata = Some raw_data)"
    and t: "2 \<le> (4294967295 :: int) \<and> 2 \<le> (4294967295 :: int) \<and>
            length (zlib_store raw_data) \<le> 4294967295 \<longrightarrow>
              (\<exists>stream. png_bytes zlib_store 2 2 (0, 150, 136) = Inr stream)"
    using raw_scanline_buffer [of 2 2 0 150 136 zlib_unstore zlib_store, OF _ _ c d]
    by auto
  have e: "raw_data = [0, 0, 150, 136, 0, 150, 136, 0, 0, 150, 136, 0, 150, 136]"
    using r s by simp
  obtain stream where st: "png_bytes zlib_store 2 2 (0, 150, 136) = Inr stream"
    using t l by (auto simp: e)
  show ?thesis
    using c d s st i e by blast
qed

text \<open>
  Claim C5. In every stream \<open>create_png\<close> produces, the chunk after the signature is
  the IHDR chunk, and its payload is 13 bytes: the width and the height, each as the four
  bytes of a big-endian unsigned integer (they read back as the width and the height),
  then bit depth 8, colour type 2, compression method 0, filter method 0 and interlace
  method 0, in this order. A stream is produced for every valid input whose dimensions
  and compressed data fit their four-byte fields.
\<close>

theorem ihdr_chunk_payload:
  "(\<forall>stream. png_bytes zlib_compress width height rgb = Inr stream \<longrightarrow>
      (\<exists>ihdr_data rest.
         png_chunk IHDR ihdr_data = Inr (chunk_layout IHDR ihdr_data) \<and>
         stream = signature @ chunk_layout IHDR ihdr_data @ rest \<and>
         ihdr_data = be32 width @ be32 height @ [8, 2, 0, 0, 0] \<and>
         length ihdr_data = 13 \<and>
         length (be32 width) = 4 \<and> read_be32 (be32 width) = width \<and>
         length (be32 height) = 4 \<and> read_be32 (be32 height) = height \<and>
         0 \<le> width \<and> width \<le> 4294967295 \<and> 0 \<le> height \<and> height \<le> 4294967295)) \<and>
   (1 \<le> width \<and> width \<le> 4294967295 \<and> 1 \<le> height \<and> height \<le> 4294967295 \<and>
    valid_color rgb \<and>
    length (zlib_compress (raw_image (nat width) (nat height) rgb)) \<le> 4294967295 \<longrightarrow>
      (\<exists>stream. png_bytes zlib_compress width height rgb = Inr stream))"
proof (intro conjI allI impI)
  fix stream
  assume "png_bytes zlib_compress width height rgb = Inr stream"
  then show "\<exists>ihdr_data rest.
         png_chunk IHDR ihdr_data = Inr (chunk_layout IHDR ihdr_data) \<and>
         stream = signature @ chunk_layout IHDR ihdr_data @ rest \<and>
         ihdr_data = be32 width @ be32 height @ [8, 2, 0, 0, 0] \<and>
         length ihdr_data = 13 \<and>
         length (be32 width) = 4 \<and> read_be32 (be32 width) = width \<and>
         length (be32 height) = 4 \<and> read_be32 (be32 height) = height \<and>
         0 \<le> width \<and> width \<le> 4294967295 \<and> 0 \<le> height \<and> height \<le> 4294967295"
    by (rule ihdr_of_stream)
next
  assume "1 \<le> width \<and> width \<le> 4294967295 \<and> 1 \<le> height \<and> height \<le> 4294967295 \<and>
    valid_color rgb \<and>
    length (zlib_compress (raw_image (nat width) (nat height) rgb)) \<le> 4294967295"
  then show "\<exists>stream. png_bytes zlib_compress width height rgb = Inr stream"
    by (intro png_bytes_total) simp_all
qed

theorem ihdr_chunk_payload_witness:
  "valid_color (0, 0, 0) \<and>
   length (zlib_store (raw_image (nat 1) (nat 1) (0, 0, 0))) \<le> 4294967295 \<and>
   (\<exists>stream. png_bytes zlib_store 1 1 (0, 0, 0) = Inr stream \<and>
     (\<exists>rest. stream = signature @ chunk_layout IHDR (be32 1 @ be32 1 @ [8, 2, 0, 0, 0]) @ rest) \<and>
     length (be32 1 @ be32 1 @ [8, 2, 0, 0, 0]) = 13 \<and>
     read_be32 (be32 1) = 1)"
proof -
  note t = ihdr_chunk_payload [of zlib_store 1 1 "(0, 0, 0)"]
  obtain stream where s: "png_bytes zlib_store 1 1 (0, 0, 0) = Inr stream"
    using t small_image_fits by auto
  show ?thesis
    using t s small_image_fits by auto
qed

text \<open>
  Claim C6. Every stream \<open>create_png\<close> produces begins with the eight bytes
  \<open>89 50 4E 47 0D 0A 1A 0A\<close>; what follows is exactly three chunks, of which the first
  is IHDR and the last is IEND with an empty payload (the twelve bytes
  \<open>00 00 00 00 49 45 4E 44 AE 42 60 82\<close>), and nothing comes after it. A stream is
  produced for every valid input whose dimensions and compressed data fit their four-byte
  fields.
\<close>

theorem png_stream_structure:
  "(\<forall>stream. png_bytes zlib_compress width height rgb = Inr stream \<longrightarrow>
      take 8 stream = [0x89, 0x50, 0x4E, 0x47, 0x0D, 0x0A, 0x1A, 0x0A] \<and>
      (\<exists>ihdr_data idat_data.
         stream = signature @ chunk_layout IHDR ihdr_data @ chunk_layout IDAT idat_data
                    @ chunk_layout IEND [] \<and>
         read_chunks (drop 8 stream) =
           Some [(IHDR, ihdr_data), (IDAT, idat_data), (IEND, [])] \<and>
         hd (the (read_chunks (drop 8 stream))) = (IHDR, ihdr_data) \<and>
         last (the (read_chunks (drop 8 stream))) = (IEND, []) \<and>
         chunk_layout IEND [] =
           [0, 0, 0, 0, 0x49, 0x45, 0x4E, 0x44, 0xAE, 0x42, 0x60, 0x82])) \<and>
   (1 \<le> width \<and> width \<le> 4294967295 \<and> 1 \<le> height \<and> height \<le> 4294967295 \<and>
    valid_color rgb \<and>
    length (zlib_compress (raw_image (nat width) (nat height) rgb)) \<le> 4294967295 \<longrightarrow>
      (\<exists>stream. png_bytes zlib_compress width height rgb = Inr stream))"
proof (intro conjI allI impI)
  fix stream
  assume s: "png_bytes zlib_compress width height rgb = Inr stream"
  show "take 8 stream = [0x89, 0x50, 0x4E, 0x47, 0x0D, 0x0A, 0x1A, 0x0A]"
    using structure_of_stream [OF s] by (rule conjunct1)
  show "\<exists>ihdr_data idat_data.
         stream = signature @ chunk_layout IHDR ihdr_data @ chunk_layout IDAT idat_data
                    @ chunk_layout IEND [] \<and>
         read_chunks (drop 8 stream) =
           Some [(IHDR, ihdr_data), (IDAT, idat_data), (IEND, [])] \<and>
         hd (the (read_chunks (drop 8 stream))) = (IHDR, ihdr_data) \<and>
         last (the (read_chunks (drop 8 stream))) = (IEND, []) \<and>
         chunk_layout IEND [] =
           [0, 0, 0, 0, 0x49, 0x45, 0x4E, 0x44, 0xAE, 0x42, 0x60, 0x82]"
    using structure_of_stream [OF s] by (rule conjunct2)
next
  assume "1 \<le> width \<and> width \<le> 4294967295 \<and> 1 \<le> height \<and> height \<le> 4294967295 \<and>
    valid_color rgb \<and>
    length (zlib_compress (raw_image (nat width) (nat height) rgb)) \<le> 4294967295"
  then show "\<exists>stream. png_bytes zlib_compress width height rgb = Inr stream"
    by (intro png_bytes_total) simp_all
qed

theorem png_stream_structure_witness:
  "valid_color (0, 0, 0) \<and>
   length (zlib_store (raw_image (nat 1) (nat 1) (0, 0, 0))) \<le> 4294967295 \<and>
   (\<exists>stream. png_bytes zlib_store 1 1 (0, 0, 0) = Inr stream \<and>
     take 8 stream = [0x89, 0x50, 0x4E, 0x47, 0x0D, 0x0A, 0x1A, 0x0A] \<and>
     (\<exists>ihdr_data idat_data.
        read_chunks (drop 8 stream) = Some [(IHDR, ihdr_data), (IDAT, idat_data), (IEND, [])]))"
proof -
  note t = png_stream_structure [of zlib_store 1 1 "(0, 0, 0)"]
  obtain stream where s: "png_bytes zlib_store 1 1 (0, 0, 0) = Inr stream"
    using t small_image_fits by auto
  show ?thesis
    using t s small_image_fits by blast
qed







text \<open>
  Claim C2, as amended. The script has no check of its dimensions and no
  \<open>InvalidDimension\<close> error. With a negative width or height, \<open>create_png\<close> fails
  with \<open>struct.error\<close> when the header is packed, before any directory is created or
  file opened: the file system is unchanged. With width 0 or height 0 (and both dimensions
  at most \<open>2^32 - 1\<close>) the encoder does not fail: it builds a stream whose header carries
  the zero dimension, and \<open>create_png\<close> goes on to create the directory and write the
  file.
\<close>

theorem nonpositive_dimensions:
  "(width < 0 \<or> height < 0 \<longrightarrow>
      create_png zlib_compress width height rgb filepath fs = (Inl StructError, fs)) \<and>
   (0 \<le> width \<and> width \<le> 4294967295 \<and> 0 \<le> height \<and> height \<le> 4294967295 \<and>
    (width = 0 \<or> height = 0) \<and>
    length (zlib_compress (replicate (nat height) 0)) \<le> 4294967295 \<longrightarrow>
      png_bytes zlib_compress width height rgb =
        Inr (png_layout (ihdr_payload width height) (zlib_compress (replicate (nat height) 0))) \<and>
      create_png zlib_compress width height rgb filepath fs =
        (case os_makedirs (os_path_dirname filepath) fs of
           (Inl e, fs') \<Rightarrow> (Inl e, fs')
         | (Inr u, fs') \<Rightarrow>
             write_file filepath
               (png_layout (ihdr_payload width height) (zlib_compress (replicate (nat height) 0)))
               fs'))"
proof (intro conjI impI)
  assume "width < 0 \<or> height < 0"
  then have "png_bytes zlib_compress width height rgb = Inl StructError"
    by (intro png_bytes_StructError_dims) auto
  then show "create_png zlib_compress width height rgb filepath fs = (Inl StructError, fs)"
    by (rule create_png_encoder_error)
next
  assume a: "0 \<le> width \<and> width \<le> 4294967295 \<and> 0 \<le> height \<and> height \<le> 4294967295 \<and>
    (width = 0 \<or> height = 0) \<and>
    length (zlib_compress (replicate (nat height) 0)) \<le> 4294967295"
  then have "scanlines width height rgb = Inr (replicate (nat height) 0)"
    by (intro scanlines_empty) auto
  with a show s: "png_bytes zlib_compress width height rgb =
        Inr (png_layout (ihdr_payload width height) (zlib_compress (replicate (nat height) 0)))"
    by (intro png_bytes_ok) simp_all
  show "create_png zlib_compress width height rgb filepath fs =
        (case os_makedirs (os_path_dirname filepath) fs of
           (Inl e, fs') \<Rightarrow> (Inl e, fs')
         | (Inr u, fs') \<Rightarrow>
             write_file filepath
               (png_layout (ihdr_payload width height) (zlib_compress (replicate (nat height) 0)))
               fs')"
    by (rule create_png_stream [OF s])
qed

theorem nonpositive_dimensions_witness:
  "create_png zlib_store (- 1) 1 (0, 150, 136) ''/out/icon.png'' root_fs =
     (Inl StructError, root_fs) \<and>
   length (zlib_store (replicate (nat 1) 0)) \<le> 4294967295 \<and>
   png_bytes zlib_store 0 1 (0, 150, 136) =
     Inr (png_layout (ihdr_payload 0 1) (zlib_store (replicate (nat 1) 0)))"
proof -
  have l: "length (zlib_store (replicate (nat 1) 0)) \<le> 4294967295"
    by (simp add: zlib_store_def stored_blocks.simps le16_def length_be32)
  show ?thesis
    using l
      nonpositive_dimensions [of "- 1" 1 zlib_store "(0, 150, 136)" "''/out/icon.png''" root_fs]
      nonpositive_dimensions [of 0 1 zlib_store "(0, 150, 136)" "''/out/icon.png''" root_fs]
    by simp
qed

text \<open>
  The claim as stated fails at width 0: \<open>create_png(0, 1, (0, 150, 136), '/out/icon.png')\<close>
  on a file system holding only the root raises nothing, creates \<open>/out\<close> and writes a
  file of 69 bytes.
\<close>

theorem zero_width_counterexample:
  "create_png zlib_store 0 1 (0, 150, 136) ''/out/icon.png'' root_fs =
     (Inr (),
      \<lparr>cwd = [],
       nodes = [[] \<mapsto> Dir, [''out''] \<mapsto> Dir,
                [''out'', ''icon.png''] \<mapsto>
                  File [137, 80, 78, 71, 13, 10, 26, 10,
                        0, 0, 0, 13, 73, 72, 68, 82, 0, 0, 0, 0, 0, 0, 0, 1, 8, 2, 0, 0, 0,
                        127, 181, 56, 224,
                        0, 0, 0, 12, 73, 68, 65, 84, 120, 1, 1, 1, 0, 254, 255, 0, 0, 1, 0, 1,
                        247, 141, 1, 81,
                        0, 0, 0, 0, 73, 69, 78, 68, 174, 66, 96, 130]]\<rparr>) \<and>
   read_file (snd (create_png zlib_store 0 1 (0, 150, 136) ''/out/icon.png'' root_fs))
       ''/out/icon.png'' =
     Some [137, 80, 78, 71, 13, 10, 26, 10,
           0, 0, 0, 13, 73, 72, 68, 82, 0, 0, 0, 0, 0, 0, 0, 1, 8, 2, 0, 0, 0,
           127, 181, 56, 224,
           0, 0, 0, 12, 73, 68, 65, 84, 120, 1, 1, 1, 0, 254, 255, 0, 0, 1, 0, 1,
           247, 141, 1, 81,
           0, 0, 0, 0, 73, 69, 78, 68, 174, 66, 96, 130]"
  by (simp only: create_png_out_icon [OF png_bytes_0x1] snd_conv read_out_icon simp_thms)

text \<open>
  Claim C9 fails on the code for a destination without a directory part:
  \<open>os.path.dirname('icon.png')\<close> is the empty string, and \<open>os.makedirs('')\<close> raises
  \<open>FileNotFoundError\<close> although the destination directory, the working directory,
  exists. Nothing is written.
\<close>

theorem bare_filename_fails:
  "create_png zlib_store 1 1 (0, 0, 0) ''icon.png'' root_fs = (Inl FileNotFoundError, root_fs) \<and>
   os_path_dirname ''icon.png'' = [] \<and>
   os_makedirs [] root_fs = (Inl FileNotFoundError, root_fs) \<and>
   os_path_isdir root_fs ''.''"
proof -
  have "CHR ''/'' \<notin> set ''icon.png''"
    by simp
  then have "create_png zlib_store 1 1 (0, 0, 0) ''icon.png'' root_fs =
               (Inl FileNotFoundError, root_fs)"
    using png_bytes_1x1_black by (rule create_png_bare_filename)
  moreover have "os_path_dirname ''icon.png'' = []"
    by (simp add: path_eval)
  moreover have "os_path_isdir root_fs ''.''"
    by (simp add: path_eval root_fs_def)
  ultimately show ?thesis
    by (simp add: os_makedirs_empty)
qed

text \<open>
  Claim C10, as amended. With width and height of at least 1, a colour with a component
  that is outside \<open>[0, 255]\<close> or is not an integer makes \<open>create_png\<close> raise before
  the directory is created and before any file is opened: the file system is unchanged.
  When both dimensions fit the header (at most \<open>2^32 - 1\<close>) the error is the one
  \<open>bytes([r, g, b])\<close> raises at the first pixel: \<open>ValueError\<close> for an integer out of
  range, \<open>TypeError\<close> for a component that is not an integer, whichever component comes
  first; with a larger dimension it is \<open>struct.error\<close>, raised when the header is packed.
  With three integers in \<open>[0, 255]\<close>, \<open>bytes([r, g, b])\<close> succeeds, the loops of lines
  30-34 run to their end, the encoder raises no \<open>TypeError\<close>, and \<open>create_png\<close> never
  raises the \<open>ValueError\<close> of \<open>bytes\<close>, whatever the other arguments. On three integers
  \<open>create_png_dyn\<close> is \<open>create_png\<close>.
\<close>

theorem color_out_of_range:
  "(1 \<le> width \<and> 1 \<le> height \<and> \<not> byte_valued (r, g, b) \<longrightarrow>
      (\<exists>e. create_png_dyn zlib_compress width height (r, g, b) filepath fs = (Inl e, fs) \<and>
           (width \<le> 4294967295 \<and> height \<le> 4294967295 \<longrightarrow>
              bytes_of_objects [r, g, b] = Inl e \<and>
              (e = ValueError ''bytes must be in range(0, 256)'' \<or> e = TypeError)) \<and>
           (4294967295 < width \<or> 4294967295 < height \<longrightarrow> e = StructError))) \<and>
   (byte_valued (r, g, b) \<longrightarrow>
      (\<exists>px. bytes_of_objects [r, g, b] = Inr px) \<and>
      (\<exists>raw_data. scanlines_dyn width height (r, g, b) = Inr raw_data) \<and>
      png_bytes_dyn zlib_compress width height (r, g, b) \<noteq> Inl TypeError \<and>
      fst (create_png_dyn zlib_compress width height (r, g, b) filepath fs)
        \<noteq> Inl (ValueError ''bytes must be in range(0, 256)'')) \<and>
   create_png_dyn zlib_compress width height (PyInt x, PyInt y, PyInt z) filepath fs =
     create_png zlib_compress width height (x, y, z) filepath fs"
proof (intro conjI impI)
  assume a: "1 \<le> width \<and> 1 \<le> height \<and> \<not> byte_valued (r, g, b)"
  then obtain e where e: "bytes_of_objects [r, g, b] = Inl e"
    using byte_valued_bytes [of r g b] by (cases "bytes_of_objects [r, g, b]") auto
  show "\<exists>e. create_png_dyn zlib_compress width height (r, g, b) filepath fs = (Inl e, fs) \<and>
           (width \<le> 4294967295 \<and> height \<le> 4294967295 \<longrightarrow>
              bytes_of_objects [r, g, b] = Inl e \<and>
              (e = ValueError ''bytes must be in range(0, 256)'' \<or> e = TypeError)) \<and>
           (4294967295 < width \<or> 4294967295 < height \<longrightarrow> e = StructError)"
  proof (cases "width \<le> 4294967295 \<and> height \<le> 4294967295")
    case True
    with a e have "png_bytes_dyn zlib_compress width height (r, g, b) = Inl e"
      by (intro png_bytes_dyn_bad) simp_all
    then have "create_png_dyn zlib_compress width height (r, g, b) filepath fs = (Inl e, fs)"
      by (simp add: create_png_dyn_def)
    then show ?thesis
      using True e bytes_of_objects_error [OF e] by auto
  next
    case False
    then have "png_bytes_dyn zlib_compress width height (r, g, b) = Inl StructError"
      by (intro png_bytes_dyn_StructError) auto
    then have "create_png_dyn zlib_compress width height (r, g, b) filepath fs
                 = (Inl StructError, fs)"
      by (simp add: create_png_dyn_def)
    then show ?thesis
      using False by auto
  qed
next
  assume v: "byte_valued (r, g, b)"
  then show "\<exists>px. bytes_of_objects [r, g, b] = Inr px"
    by (simp add: byte_valued_bytes)
  show "\<exists>raw_data. scanlines_dyn width height (r, g, b) = Inr raw_data"
    using v by (rule scanlines_dyn_ok)
  show "png_bytes_dyn zlib_compress width height (r, g, b) \<noteq> Inl TypeError"
    using png_bytes_dyn_error [OF v, of zlib_compress width height TypeError] by auto
  from v obtain x y z where c: "r = PyInt x" "g = PyInt y" "b = PyInt z"
    and vc: "valid_color (x, y, z)"
    by (cases r; cases g; cases b) auto
  have n: "e \<noteq> ValueError ''bytes must be in range(0, 256)''"
    if "create_png zlib_compress width height (x, y, z) filepath fs = (Inl e, fs')" for e fs'
    using create_png_error [OF that] vc fs_error_not_bytes [of e] by auto
  obtain res fs' where
    res: "create_png zlib_compress width height (x, y, z) filepath fs = (res, fs')"
    by (cases "create_png zlib_compress width height (x, y, z) filepath fs") auto
  show "fst (create_png_dyn zlib_compress width height (r, g, b) filepath fs)
          \<noteq> Inl (ValueError ''bytes must be in range(0, 256)'')"
    using n [of _ fs'] res by (cases res) (auto simp: c create_png_dyn_int)
next
  show "create_png_dyn zlib_compress width height (PyInt x, PyInt y, PyInt z) filepath fs =
     create_png zlib_compress width height (x, y, z) filepath fs"
    by (rule create_png_dyn_int)
qed

theorem color_out_of_range_witness:
  "\<not> byte_valued (PyInt 0, PyInt 150, PyInt 300) \<and>
   create_png_dyn zlib_store 48 48 (PyInt 0, PyInt 150, PyInt 300) ''/out/icon.png'' root_fs =
     (Inl (ValueError ''bytes must be in range(0, 256)''), root_fs) \<and>
   \<not> byte_valued (PyInt 0, PyOther, PyInt 300) \<and>
   create_png_dyn zlib_store 48 48 (PyInt 0, PyOther, PyInt 300) ''/out/icon.png'' root_fs =
     (Inl TypeError, root_fs) \<and>
   create_png_dyn zlib_store 4294967296 48 (PyInt 0, PyInt 150, PyInt 300) ''/out/icon.png''
       root_fs =
     (Inl StructError, root_fs) \<and>
   byte_valued (PyInt 0, PyInt 150, PyInt 136) \<and>
   bytes_of_objects [PyInt 0, PyInt 150, PyInt 136] = Inr [0, 150, 136] \<and>
   (\<exists>raw_data. scanlines_dyn 48 48 (PyInt 0, PyInt 150, PyInt 136) = Inr raw_data) \<and>
   fst (create_png_dyn zlib_store 48 48 (PyInt 0, PyInt 150, PyInt 136) ''/out/icon.png''
          root_fs)
     \<noteq> Inl (ValueError ''bytes must be in range(0, 256)'')"
proof -
  have n1: "\<not> byte_valued (PyInt 0, PyInt 150, PyInt 300)"
    and n2: "\<not> byte_valued (PyInt 0, PyOther, PyInt 300)"
    and v: "byte_valued (PyInt 0, PyInt 150, PyInt 136)"
    by (simp_all add: valid_color_def)
  have b1: "bytes_of_objects [PyInt 0, PyInt 150, PyInt 300] =
              Inl (ValueError ''bytes must be in range(0, 256)'')"
    and b2: "bytes_of_objects [PyInt 0, PyOther, PyInt 300] = Inl TypeError"
    and b3: "bytes_of_objects [PyInt 0, PyInt 150, PyInt 136] = Inr [0, 150, 136]"
    by simp_all
  have c1: "create_png_dyn zlib_store 48 48 (PyInt 0, PyInt 150, PyInt 300) ''/out/icon.png''
                root_fs =
              (Inl (ValueError ''bytes must be in range(0, 256)''), root_fs)"
    using n1 b1
      color_out_of_range [of 48 48 "PyInt 0" "PyInt 150" "PyInt 300" zlib_store
         "''/out/icon.png''" root_fs 0 0 0]
    by auto
  have c2: "create_png_dyn zlib_store 48 48 (PyInt 0, PyOther, PyInt 300) ''/out/icon.png''
                root_fs =
              (Inl TypeError, root_fs)"
    using n2 b2
      color_out_of_range [of 48 48 "PyInt 0" "PyOther" "PyInt 300" zlib_store
         "''/out/icon.png''" root_fs 0 0 0]
    by auto
  have c3: "create_png_dyn zlib_store 4294967296 48 (PyInt 0, PyInt 150, PyInt 300)
                ''/out/icon.png'' root_fs =
              (Inl StructError, root_fs)"
    using n1
      color_out_of_range [of 4294967296 48 "PyInt 0" "PyInt 150" "PyInt 300" zlib_store
         "''/out/icon.png''" root_fs 0 0 0]
    by auto
  have c4: "(\<exists>raw_data. scanlines_dyn 48 48 (PyInt 0, PyInt 150, PyInt 136) = Inr raw_data) \<and>
            fst (create_png_dyn zlib_store 48 48 (PyInt 0, PyInt 150, PyInt 136)
                   ''/out/icon.png'' root_fs)
              \<noteq> Inl (ValueError ''bytes must be in range(0, 256)'')"
    using v
      color_out_of_range [of 48 48 "PyInt 0" "PyInt 150" "PyInt 136" zlib_store
         "''/out/icon.png''" root_fs 0 0 0]
    by blast
  show ?thesis
    using n1 n2 v b3 c1 c2 c3 c4 by blast
qed

text \<open>
  The claim as stated fails where no pixel is built: with width 0 and height 0 the loops
  do not run, the colour is never converted, and the file is written, with the component
  300 as well as with a component that is not an integer. And at width \<open>2^32\<close> the error
  is not the one of the pixels: \<open>struct.error\<close> is raised when the header is packed.
\<close>

theorem empty_image_counterexample:
  "\<not> valid_color (0, 150, 300) \<and>
   create_png zlib_store 0 0 (0, 150, 300) ''/out/icon.png'' root_fs =
     (Inr (),
      \<lparr>cwd = [],
       nodes = [[] \<mapsto> Dir, [''out''] \<mapsto> Dir,
                [''out'', ''icon.png''] \<mapsto>
                  File [137, 80, 78, 71, 13, 10, 26, 10,
                        0, 0, 0, 13, 73, 72, 68, 82, 0, 0, 0, 0, 0, 0, 0, 0, 8, 2, 0, 0, 0,
                        180, 233, 235, 69,
                        0, 0, 0, 11, 73, 68, 65, 84, 120, 1, 1, 0, 0, 255, 255, 0, 0, 0, 1,
                        137, 214, 174, 95,
                        0, 0, 0, 0, 73, 69, 78, 68, 174, 66, 96, 130]]\<rparr>) \<and>
   \<not> byte_valued (PyInt 0, PyOther, PyInt 136) \<and>
   create_png_dyn zlib_store 0 0 (PyInt 0, PyOther, PyInt 136) ''/out/icon.png'' root_fs =
     create_png zlib_store 0 0 (0, 150, 300) ''/out/icon.png'' root_fs \<and>
   create_png zlib_store 4294967296 1 (0, 150, 300) ''/out/icon.png'' root_fs =
     (Inl StructError, root_fs)"
proof -
  have "\<not> valid_color (0, 150, 300)"
    by (simp add: valid_color_def)
  moreover have "create_png_dyn zlib_store 0 0 (PyInt 0, PyOther, PyInt 136) ''/out/icon.png''
                   root_fs =
                 create_png zlib_store 0 0 (0, 150, 300) ''/out/icon.png'' root_fs"
    by (rule create_png_dyn_empty) simp
  moreover have "create_png zlib_store 4294967296 1 (0, 150, 300) ''/out/icon.png'' root_fs =
                   (Inl StructError, root_fs)"
    by (simp add: create_png_def png_bytes_StructError_dims)
  ultimately show ?thesis
    by (simp only: create_png_out_icon [OF png_bytes_0x0] simp_thms byte_valued.simps)
qed

end
